theory Spec2Isabelle
  imports Complex_Main "HOL-Library.AList"
begin

section \<open>Schema model (package dal)\<close>

text \<open>
  Modelled from the spec: \<^verbatim>\<open>dal.Type\<close> is declared outside the files at hand. The spec
  lists the semantic types string/int/float/bool/raw-binary/object/time; the sources name
  \<^verbatim>\<open>dal.StringType\<close>, \<^verbatim>\<open>dal.IntType\<close> and \<^verbatim>\<open>dal.RawType\<close>. \<open>UnsetType\<close> is the zero value
  of a struct member that was never assigned.
\<close>

datatype Type =
  UnsetType | StringType | BooleanType | IntType | FloatType | TimeType | ObjectType | RawType

text \<open>
  Go's \<^verbatim>\<open>interface{}\<close> values, as far as the sources here build or compare them:
  \<^verbatim>\<open>nil\<close>, strings, integers, booleans, and a \<^verbatim>\<open>dal.Type\<close> (stored in a delta).
\<close>

datatype val = VNil | VStr string | VInt int | VBool bool | VType Type

text \<open>
  Errors as values. \<open>CollectionNotFound\<close> is \<^verbatim>\<open>dal.CollectionNotFound\<close>; \<open>Errorf\<close> carries the
  message of a \<^verbatim>\<open>fmt.Errorf\<close> made in the sources at hand; \<open>External\<close> is an error handed
  back by a collaborator (driver, filter package, generators, indexer).
\<close>

datatype error = CollectionNotFound | Errorf string | External string

text \<open>
  Modelled from the spec: the \<^verbatim>\<open>Field\<close> struct is declared outside the files at hand.
  Its members are the ones the sources read (\<^verbatim>\<open>Name\<close>, \<^verbatim>\<open>Type\<close>, \<^verbatim>\<open>Length\<close>, \<^verbatim>\<open>Required\<close>,
  \<^verbatim>\<open>Unique\<close>, \<^verbatim>\<open>Identity\<close>, \<^verbatim>\<open>Key\<close>, \<^verbatim>\<open>DefaultValue\<close>); the formatter and validator hooks
  are read only by \<^verbatim>\<open>MakeRecord\<close>, which is not modelled.
\<close>

record Field =
  Field_Name :: string
  Field_Type :: Type
  Length :: int
  Required :: bool
  Unique :: bool
  Identity :: bool
  Key :: bool
  DefaultValue :: val

record Collection =
  Collection_Name :: string
  Fields :: "Field list"
  IdentityField :: string
  IdentityFieldType :: Type

definition DefaultIdentityField :: string where
  "DefaultIdentityField = ''id''"

definition DefaultIdentityFieldType :: Type where
  "DefaultIdentityFieldType = IntType"

definition NewCollection :: "string \<Rightarrow> Collection" where
  "NewCollection name =
     \<lparr>Collection_Name = name, Fields = [],
      IdentityField = DefaultIdentityField, IdentityFieldType = DefaultIdentityFieldType\<rparr>"

definition AddFields :: "Collection \<Rightarrow> Field list \<Rightarrow> Collection" where
  "AddFields self fs = self\<lparr>Fields := Fields self @ fs\<rparr>"

text \<open>\<^verbatim>\<open>GetField\<close>: the first field of that name; \<open>None\<close> is the \<^verbatim>\<open>(Field{}, false)\<close> return.\<close>

fun GetField_scan :: "Field list \<Rightarrow> string \<Rightarrow> Field option" where
  "GetField_scan [] name = None"
| "GetField_scan (field # rest) name =
     (if Field_Name field = name then Some field else GetField_scan rest name)"

definition GetField :: "Collection \<Rightarrow> string \<Rightarrow> Field option" where
  "GetField self name = GetField_scan (Fields self) name"

text \<open>
  \<^verbatim>\<open>Collection.ConvertValue\<close>. The field's own conversion (\<^verbatim>\<open>Field.ConvertValue\<close>) is
  declared outside the files at hand and is the parameter \<open>fieldConvert\<close>.
\<close>

definition unknownFieldMessage :: "string \<Rightarrow> string" where
  "unknownFieldMessage name = ''Unknown field '' @ [CHR 0x27] @ name @ [CHR 0x27]"

definition ConvertValue ::
  "(Field \<Rightarrow> val \<Rightarrow> error + val) \<Rightarrow> Collection \<Rightarrow> string \<Rightarrow> val \<Rightarrow> error + val" where
  "ConvertValue fieldConvert self name v =
     (case GetField self name of
        Some field \<Rightarrow> fieldConvert field v
      | None \<Rightarrow> Inl (Errorf (unknownFieldMessage name)))"

subsection \<open>Schema deltas and \<^verbatim>\<open>Collection.Diff\<close>\<close>

text \<open>
  Modelled from the spec: the \<^verbatim>\<open>SchemaDelta\<close> struct is declared outside the files at hand;
  its members are the ones \<^verbatim>\<open>Diff\<close> assigns. A member left out of a struct literal has
  its zero value.
\<close>

datatype DeltaType = CollectionDelta | FieldDelta

record SchemaDelta =
  Delta_Type :: DeltaType
  Message :: string
  Delta_Name :: string
  Parameter :: string
  Desired :: val
  Actual :: val

text \<open>
  The loop over \<^verbatim>\<open>self.Fields\<close>, appending to \<^verbatim>\<open>differences\<close>. \<^verbatim>\<open>Field.Diff\<close> is declared
  outside the files at hand and is the parameter \<open>fieldDiff\<close>; its \<^verbatim>\<open>nil\<close> result is the
  empty list, for which the append is skipped.
\<close>

fun Diff_fields ::
  "(Field \<Rightarrow> Field \<Rightarrow> SchemaDelta list) \<Rightarrow> Collection \<Rightarrow> Field list \<Rightarrow>
     SchemaDelta list \<Rightarrow> SchemaDelta list" where
  "Diff_fields fieldDiff actual [] differences = differences"
| "Diff_fields fieldDiff actual (myField # rest) differences =
     (case GetField actual (Field_Name myField) of
        Some theirField \<Rightarrow>
          Diff_fields fieldDiff actual rest (differences @ fieldDiff myField theirField)
      | None \<Rightarrow>
          Diff_fields fieldDiff actual rest
            (differences @
              [\<lparr>Delta_Type = FieldDelta, Message = ''is missing'',
                Delta_Name = Field_Name myField, Parameter = [],
                Desired = VNil, Actual = VNil\<rparr>]))"

definition Diff ::
  "(Field \<Rightarrow> Field \<Rightarrow> SchemaDelta list) \<Rightarrow> Collection \<Rightarrow> Collection \<Rightarrow> SchemaDelta list" where
  "Diff fieldDiff self actual =
     (let differences0 = [];
          differences1 =
            (if Collection_Name self \<noteq> Collection_Name actual
             then differences0 @
               [\<lparr>Delta_Type = CollectionDelta, Message = ''names do not match'',
                 Delta_Name = Collection_Name self, Parameter = [],
                 Desired = VStr (Collection_Name self),
                 Actual = VStr (Collection_Name actual)\<rparr>]
             else differences0);
          differences2 =
            (if IdentityField self \<noteq> IdentityField actual
             then differences1 @
               [\<lparr>Delta_Type = CollectionDelta, Message = ''does not match'',
                 Delta_Name = Collection_Name self, Parameter = ''IdentityField'',
                 Desired = VStr (IdentityField self),
                 Actual = VStr (IdentityField actual)\<rparr>]
             else differences1);
          differences3 =
            (if IdentityFieldType self \<noteq> IdentityFieldType actual
             then differences2 @
               [\<lparr>Delta_Type = CollectionDelta, Message = ''does not match'',
                 Delta_Name = Collection_Name self, Parameter = ''IdentityFieldType'',
                 Desired = VType (IdentityFieldType self),
                 Actual = VType (IdentityFieldType actual)\<rparr>]
             else differences2)
      in Diff_fields fieldDiff actual (Fields self) differences3)"

text \<open>
  Modelled from the spec: \<^verbatim>\<open>Field.Diff\<close> is declared outside the files at hand. The spec
  (4.1) gives it as "a field-level diff that compares type, length, nullability,
  uniqueness, default value"; one delta per attribute that differs.
\<close>

definition fieldDelta :: "Field \<Rightarrow> string \<Rightarrow> val \<Rightarrow> val \<Rightarrow> SchemaDelta list" where
  "fieldDelta self parameter desired actual =
     (if desired \<noteq> actual
      then [\<lparr>Delta_Type = FieldDelta, Message = ''does not match'',
             Delta_Name = Field_Name self, Parameter = parameter,
             Desired = desired, Actual = actual\<rparr>]
      else [])"

definition Field_Diff :: "Field \<Rightarrow> Field \<Rightarrow> SchemaDelta list" where
  "Field_Diff self other =
     fieldDelta self ''Type'' (VType (Field_Type self)) (VType (Field_Type other)) @
     fieldDelta self ''Length'' (VInt (Length self)) (VInt (Length other)) @
     fieldDelta self ''Required'' (VBool (Required self)) (VBool (Required other)) @
     fieldDelta self ''Unique'' (VBool (Unique self)) (VBool (Unique other)) @
     fieldDelta self ''DefaultValue'' (DefaultValue self) (DefaultValue other)"

text \<open>The pieces of a \<^verbatim>\<open>Diff\<close> result, named for the statements below.\<close>

definition nameDelta :: "Collection \<Rightarrow> Collection \<Rightarrow> SchemaDelta list" where
  "nameDelta desired actual =
     (if Collection_Name desired = Collection_Name actual then []
      else [\<lparr>Delta_Type = CollectionDelta, Message = ''names do not match'',
             Delta_Name = Collection_Name desired, Parameter = [],
             Desired = VStr (Collection_Name desired),
             Actual = VStr (Collection_Name actual)\<rparr>])"

definition identityFieldDelta :: "Collection \<Rightarrow> Collection \<Rightarrow> SchemaDelta list" where
  "identityFieldDelta desired actual =
     (if IdentityField desired = IdentityField actual then []
      else [\<lparr>Delta_Type = CollectionDelta, Message = ''does not match'',
             Delta_Name = Collection_Name desired, Parameter = ''IdentityField'',
             Desired = VStr (IdentityField desired),
             Actual = VStr (IdentityField actual)\<rparr>])"

definition identityTypeDelta :: "Collection \<Rightarrow> Collection \<Rightarrow> SchemaDelta list" where
  "identityTypeDelta desired actual =
     (if IdentityFieldType desired = IdentityFieldType actual then []
      else [\<lparr>Delta_Type = CollectionDelta, Message = ''does not match'',
             Delta_Name = Collection_Name desired, Parameter = ''IdentityFieldType'',
             Desired = VType (IdentityFieldType desired),
             Actual = VType (IdentityFieldType actual)\<rparr>])"

definition isMissing :: "Field \<Rightarrow> SchemaDelta" where
  "isMissing f =
     \<lparr>Delta_Type = FieldDelta, Message = ''is missing'', Delta_Name = Field_Name f,
      Parameter = [], Desired = VNil, Actual = VNil\<rparr>"

definition deltasOfField ::
  "(Field \<Rightarrow> Field \<Rightarrow> SchemaDelta list) \<Rightarrow> Collection \<Rightarrow> Field \<Rightarrow> SchemaDelta list" where
  "deltasOfField fieldDiff actual f =
     (case GetField actual (Field_Name f) of
        None \<Rightarrow> [isMissing f]
      | Some theirField \<Rightarrow> fieldDiff f theirField)"

subsection \<open>\<^verbatim>\<open>Collection.Diff\<close> on pointers\<close>

text \<open>
  \<^verbatim>\<open>Diff\<close> takes its two Collections by pointer, and \<^verbatim>\<open>Field.Diff\<close> is called on pointers
  too. To say what the call may write, the same body is given over a memory of objects, an
  address being an index into it. Loading through an address that holds no Collection is
  the \<^verbatim>\<open>nil\<close> dereference (\<open>None\<close>). A local variable whose address is taken is a new
  object: \<^verbatim>\<open>myField\<close> is the loop's copy of the element, \<^verbatim>\<open>theirField\<close> the copy that
  \<^verbatim>\<open>GetField\<close> returns. \<^verbatim>\<open>Field.Diff\<close>, declared outside the files at hand, is the parameter
  \<open>fieldDiffAt\<close>: it gets the memory and the two addresses and gives its deltas and the
  memory it leaves.
\<close>

datatype obj = CollectionObj Collection | FieldObj Field

type_synonym memory = "obj list"

definition loadCollection :: "memory \<Rightarrow> nat \<Rightarrow> Collection option" where
  "loadCollection m p =
     (if p < length m
      then (case m ! p of CollectionObj c \<Rightarrow> Some c | FieldObj f \<Rightarrow> None)
      else None)"

definition loadField :: "memory \<Rightarrow> nat \<Rightarrow> Field option" where
  "loadField m p =
     (if p < length m
      then (case m ! p of FieldObj f \<Rightarrow> Some f | CollectionObj c \<Rightarrow> None)
      else None)"

definition new :: "memory \<Rightarrow> obj \<Rightarrow> nat \<times> memory" where
  "new m v = (length m, m @ [v])"

text \<open>The three comparisons before the loop, with the source's accumulator.\<close>

definition Diff_collection :: "Collection \<Rightarrow> Collection \<Rightarrow> SchemaDelta list" where
  "Diff_collection self actual =
     (let differences0 = [];
          differences1 =
            (if Collection_Name self \<noteq> Collection_Name actual
             then differences0 @
               [\<lparr>Delta_Type = CollectionDelta, Message = ''names do not match'',
                 Delta_Name = Collection_Name self, Parameter = [],
                 Desired = VStr (Collection_Name self),
                 Actual = VStr (Collection_Name actual)\<rparr>]
             else differences0);
          differences2 =
            (if IdentityField self \<noteq> IdentityField actual
             then differences1 @
               [\<lparr>Delta_Type = CollectionDelta, Message = ''does not match'',
                 Delta_Name = Collection_Name self, Parameter = ''IdentityField'',
                 Desired = VStr (IdentityField self),
                 Actual = VStr (IdentityField actual)\<rparr>]
             else differences1)
      in if IdentityFieldType self \<noteq> IdentityFieldType actual
         then differences2 @
           [\<lparr>Delta_Type = CollectionDelta, Message = ''does not match'',
             Delta_Name = Collection_Name self, Parameter = ''IdentityFieldType'',
             Desired = VType (IdentityFieldType self),
             Actual = VType (IdentityFieldType actual)\<rparr>]
         else differences2)"

text \<open>
  The loop \<^verbatim>\<open>for _, myField := range self.Fields\<close> over the elements of the slice as it was
  when the loop began; \<^verbatim>\<open>actual\<close> is read through its pointer in every pass.
\<close>

fun Diff_range ::
  "(memory \<Rightarrow> nat \<Rightarrow> nat \<Rightarrow> SchemaDelta list \<times> memory) \<Rightarrow> nat \<Rightarrow> Field list \<Rightarrow>
     SchemaDelta list \<Rightarrow> memory \<Rightarrow> (SchemaDelta list \<times> memory) option" where
  "Diff_range fieldDiffAt actual [] differences m = Some (differences, m)"
| "Diff_range fieldDiffAt actual (elem # rest) differences m =
     (let (myField, m1) = new m (FieldObj elem)
      in case loadCollection m1 actual of
           None \<Rightarrow> None
         | Some a \<Rightarrow>
             (case GetField a (Field_Name elem) of
                Some found \<Rightarrow>
                  (let (theirField, m2) = new m1 (FieldObj found);
                       (diff, m3) = fieldDiffAt m2 myField theirField
                   in Diff_range fieldDiffAt actual rest (differences @ diff) m3)
              | None \<Rightarrow>
                  Diff_range fieldDiffAt actual rest
                    (differences @
                      [\<lparr>Delta_Type = FieldDelta, Message = ''is missing'',
                        Delta_Name = Field_Name elem, Parameter = [],
                        Desired = VNil, Actual = VNil\<rparr>]) m1))"

definition Diff_at ::
  "(memory \<Rightarrow> nat \<Rightarrow> nat \<Rightarrow> SchemaDelta list \<times> memory) \<Rightarrow> memory \<Rightarrow> nat \<Rightarrow> nat \<Rightarrow>
     (SchemaDelta list \<times> memory) option" where
  "Diff_at fieldDiffAt m self actual =
     (case loadCollection m self of
        None \<Rightarrow> None
      | Some s \<Rightarrow>
          (case loadCollection m actual of
             None \<Rightarrow> None
           | Some a \<Rightarrow> Diff_range fieldDiffAt actual (Fields s) (Diff_collection s a) m))"

text \<open>
  What is asked of \<^verbatim>\<open>Field.Diff\<close>: it writes through no pointer but the two it is given
  (it may allocate), and it finds nothing between two equal fields.
\<close>

definition writesOnlyItsArguments ::
  "(memory \<Rightarrow> nat \<Rightarrow> nat \<Rightarrow> SchemaDelta list \<times> memory) \<Rightarrow> bool" where
  "writesOnlyItsArguments fieldDiffAt =
     (\<forall>m a b. length m \<le> length (snd (fieldDiffAt m a b)) \<and>
        (\<forall>p < length m. p \<noteq> a \<and> p \<noteq> b \<longrightarrow> snd (fieldDiffAt m a b) ! p = m ! p))"

definition noDeltaOnEqualFields ::
  "(memory \<Rightarrow> nat \<Rightarrow> nat \<Rightarrow> SchemaDelta list \<times> memory) \<Rightarrow> bool" where
  "noDeltaOnEqualFields fieldDiffAt =
     (\<forall>m a b f. loadField m a = Some f \<and> loadField m b = Some f \<longrightarrow>
        fst (fieldDiffAt m a b) = [])"

text \<open>A field-level diff that only reads the two fields, as a function on pointers.\<close>

definition readingFields ::
  "(Field \<Rightarrow> Field \<Rightarrow> SchemaDelta list) \<Rightarrow> memory \<Rightarrow> nat \<Rightarrow> nat \<Rightarrow>
     SchemaDelta list \<times> memory" where
  "readingFields fieldDiff m a b =
     (case (loadField m a, loadField m b) of
        (Some x, Some y) \<Rightarrow> (fieldDiff x y, m)
      | _ \<Rightarrow> ([], m))"

section \<open>Pagination (package backends, indexer)\<close>

record IndexPage =
  IndexPage_Page :: int
  IndexPage_TotalPages :: int
  IndexPage_Limit :: int
  IndexPage_Offset :: int
  TotalResults :: int

record Criterion =
  Criterion_Field :: string
  Values :: "val list"

text \<open>
  Modelled from the spec: the \<^verbatim>\<open>filter.Filter\<close> struct is declared outside the files at
  hand; the spec (3) gives it criteria, a field projection, \<^verbatim>\<open>Limit\<close> and \<^verbatim>\<open>Offset\<close>.
\<close>

record Filter =
  Criteria :: "Criterion list"
  Filter_Fields :: "string list"
  Filter_Limit :: int
  Filter_Offset :: int

text \<open>
  Modelled from the spec: the \<^verbatim>\<open>Record\<close> and \<^verbatim>\<open>RecordSet\<close> structs are declared outside the
  files at hand. A Record has an \<^verbatim>\<open>ID\<close> (an \<^verbatim>\<open>interface{}\<close>: the sources assign it values
  and compare it with \<^verbatim>\<open>nil\<close> and with the empty string) and a map from field name to
  value; a RecordSet has the Records and the pagination members the sources assign.
\<close>

record Record =
  ID :: val
  Record_Fields :: "(string \<times> val) list"

record RecordSet =
  ResultCount :: int
  RecordSet_Page :: int
  RecordSet_TotalPages :: int
  RecordsPerPage :: int
  Records :: "Record list"

text \<open>
  Go's \<^verbatim>\<open>int\<close> is 64 bits wide here, and \<^verbatim>\<open>f.Offset+1\<close> wraps.
\<close>

definition wrap64 :: "int \<Rightarrow> int" where
  "wrap64 n = (n + 2 ^ 63) mod 2 ^ 64 - 2 ^ 63"

text \<open>
  The page counts are computed as \<^verbatim>\<open>int(math.Ceil(float64(a) / float64(b)))\<close>. A \<^verbatim>\<open>float64\<close>
  has a significand of 53 bits: \<open>float64 x\<close> is the real \<open>x\<close> rounded to the nearest such
  number, a tie going to the even significand; \<open>ulp x\<close> is the distance between
  neighbouring numbers at the magnitude of \<open>x\<close>. The conversion of an integer and the
  division both round this way. The exponent range of \<^verbatim>\<open>float64\<close> is not reached by the
  quotient of two 64-bit integers and is left out. \<^verbatim>\<open>math.Ceil\<close> is exact. The conversion back
  to \<^verbatim>\<open>int\<close> gives the integer when it fits in 64 bits; when it does not, Go leaves the
  result to the implementation (\<open>None\<close>).
\<close>

definition roundHalfEven :: "real \<Rightarrow> int" where
  "roundHalfEven x =
     (let n = \<lfloor>x\<rfloor>; r = x - of_int n
      in if r < 1 / 2 then n else if 1 / 2 < r then n + 1 else if even n then n else n + 1)"

definition ulp :: "real \<Rightarrow> real" where
  "ulp x = 2 powr of_int (\<lfloor>log 2 \<bar>x\<bar>\<rfloor> - 52)"

definition float64 :: "real \<Rightarrow> real" where
  "float64 x =
     (if x = 0 then 0 else sgn x * (of_int (roundHalfEven (\<bar>x\<bar> / ulp x)) * ulp x))"

definition intOfFloat :: "real \<Rightarrow> int option" where
  "intOfFloat x =
     (if - (2 ^ 63) \<le> x \<and> x < 2 ^ 63
      then Some (if 0 \<le> x then \<lfloor>x\<rfloor> else \<lceil>x\<rceil>)
      else None)"

definition ceilQuotient :: "int \<Rightarrow> int \<Rightarrow> int option" where
  "ceilQuotient a b =
     intOfFloat (of_int \<lceil>float64 (float64 (of_int a) / float64 (of_int b))\<rceil>)"

definition PopulateRecordSetPageDetails ::
  "RecordSet \<Rightarrow> Filter \<Rightarrow> IndexPage \<Rightarrow> RecordSet option" where
  "PopulateRecordSetPageDetails recordset f page =
     (let r1 = recordset\<lparr>ResultCount := TotalResults page\<rparr>
      in case (if IndexPage_TotalPages page > 0
               then Some (r1\<lparr>RecordSet_TotalPages := IndexPage_TotalPages page\<rparr>)
               else if ResultCount r1 \<ge> 0 \<and> Filter_Limit f > 0
               then map_option (\<lambda>n. r1\<lparr>RecordSet_TotalPages := n\<rparr>)
                      (ceilQuotient (ResultCount r1) (Filter_Limit f))
               else Some r1) of
           None \<Rightarrow> None
         | Some r2 \<Rightarrow>
             (let r3 = (if RecordsPerPage r2 = 0
                        then r2\<lparr>RecordsPerPage := IndexPage_Limit page\<rparr>
                        else r2)
              in if IndexPage_Limit page > 0
                 then map_option (\<lambda>n. r3\<lparr>RecordSet_Page := n\<rparr>)
                        (ceilQuotient (wrap64 (Filter_Offset f + 1)) (IndexPage_Limit page))
                 else Some r3))"

section \<open>The relational backend (package backends, sql.go)\<close>

subsection \<open>Collaborators declared outside the files at hand\<close>

datatype StatementType =
  SqlSelectStatement | SqlInsertStatement | SqlUpdateStatement | SqlDeleteStatement

text \<open>
  Modelled from the spec: the \<^verbatim>\<open>generators.Sql\<close> struct is declared outside the files at
  hand. Its members are the ones the backend assigns: the statement type, the input data
  (a map from field name to value, kept as an association list), the fields to normalize,
  and the dialect settings of the spec (4.2).
\<close>

record Sql =
  Sql_Type :: StatementType
  InputData :: "(string \<times> val) list"
  NormalizeFields :: "string list"
  TypeMapping :: "(Type \<times> string) list"
  PlaceholderFormat :: string
  PlaceholderArgument :: string
  TableNameFormat :: string
  FieldNameFormat :: string
  NormalizerFormat :: string

text \<open>
  The functions of the \<^verbatim>\<open>filter\<close> and \<^verbatim>\<open>generators\<close> packages and \<^verbatim>\<open>Field.ConvertValue\<close>
  that the backend calls, as parameters. \<open>Render\<close> gives the statement text together with
  what \<^verbatim>\<open>queryGen.GetValues()\<close> holds after rendering; \<open>Initialize\<close> gives the initialized
  generator. \<open>Sprintf\<close> is \<^verbatim>\<open>fmt.Sprintf\<close> on a format held by the backend and one string
  argument; where the source calls it on a literal format with \<^verbatim>\<open>%s\<close> verbs only, the
  result is written out.
\<close>

record Collab =
  fieldConvert :: "Field \<Rightarrow> val \<Rightarrow> error + val"
  NewSqlGenerator :: Sql
  Parse :: "string \<Rightarrow> error + Filter"
  FromMap :: "(string \<times> val) list \<Rightarrow> error + Filter"
  MakeFilter :: Filter
  Null :: Filter
  Initialize :: "Sql \<Rightarrow> string \<Rightarrow> error + Sql"
  Render :: "Sql \<Rightarrow> string \<Rightarrow> Filter \<Rightarrow> error + (string \<times> val list)"
  ToTableName :: "Sql \<Rightarrow> string \<Rightarrow> string"
  ToFieldName :: "Sql \<Rightarrow> string \<Rightarrow> string"
  ToNativeType :: "Sql \<Rightarrow> Type \<Rightarrow> int \<Rightarrow> error + string"
  Sprintf :: "string \<Rightarrow> string \<Rightarrow> string"

text \<open>
  The \<^verbatim>\<open>database/sql\<close> driver over a live store \<open>'s\<close>. A transaction works on its own copy
  of the store: \<open>Exec\<close> maps the copy to the next one or fails, \<open>Commit\<close> makes the copy the
  store (a \<open>Commit\<close> that fails leaves the store as it was), and a rollback drops it.
  \<open>Query\<close> gives the rows of a result set. \<open>ListTables\<close> is the list-all-tables query: per
  row the scanned table name or the scan's error, and \<^verbatim>\<open>rows.Err()\<close>. The indexer's own
  state is not modelled: its two operations give their error.
\<close>

record 's Driver =
  Begin :: "'s \<Rightarrow> error option"
  Exec :: "string \<Rightarrow> val list \<Rightarrow> 's \<Rightarrow> error + 's"
  Query :: "string \<Rightarrow> val list \<Rightarrow> 's \<Rightarrow> error + val list list"
  Commit :: "'s \<Rightarrow> error option"
  ListTables :: "string \<Rightarrow> 's \<Rightarrow> error + ((error + string) list \<times> error option)"

record Indexer =
  Index :: "string \<Rightarrow> RecordSet \<Rightarrow> error option"
  IndexRemove :: "string \<Rightarrow> val list \<Rightarrow> error option"

text \<open>The calls made on the driver, the introspection function and the indexer, in order.\<close>

datatype event =
  CallBegin | CallExec string "val list" | CallQuery string "val list"
| CallCommit | CallRollback | CallListTables | CallTableDetails string
| CallIndex string | CallIndexRemove string

record 's SqlBackend =
  connBackend :: string
  connDataset :: string
  db :: 's
  indexer :: "Indexer option"
  queryGenTypeMapping :: "(Type \<times> string) list"
  queryGenPlaceholderArgument :: string
  queryGenPlaceholderFormat :: string
  queryGenTableFormat :: string
  queryGenFieldFormat :: string
  queryGenNormalizerFormat :: string
  listAllTablesQuery :: string
  createPrimaryKeyIntFormat :: string
  createPrimaryKeyStrFormat :: string
  refreshCollectionFunc :: "'s \<Rightarrow> string \<Rightarrow> string \<Rightarrow> error + Collection"
  dropTableQuery :: string
  collectionCache :: "(string \<times> Collection) list"
  calls :: "event list"

definition called :: "event list \<Rightarrow> 's SqlBackend \<Rightarrow> 's SqlBackend" where
  "called evs self = self\<lparr>calls := calls self @ evs\<rparr>"

subsection \<open>Library functions\<close>

fun Join :: "string list \<Rightarrow> string \<Rightarrow> string" where
  "Join [] sep = []"
| "Join [a] sep = a"
| "Join (a # b # rest) sep = a @ sep @ Join (b # rest) sep"

fun TrimPrefix :: "string \<Rightarrow> string \<Rightarrow> string" where
  "TrimPrefix s [] = s"
| "TrimPrefix [] (p # ps) = []"
| "TrimPrefix (c # cs) (p # ps) =
     (if c = p \<and> take (length ps) cs = ps then drop (length ps) cs else c # cs)"

definition ContainsString :: "string list \<Rightarrow> string \<Rightarrow> bool" where
  "ContainsString list elem = (elem \<in> set list)"

definition AddCriteria :: "Filter \<Rightarrow> Criterion \<Rightarrow> Filter" where
  "AddCriteria f c = f\<lparr>Criteria := Criteria f @ [c]\<rparr>"

subsection \<open>Schema cache\<close>

definition getCollectionFromCache :: "'s SqlBackend \<Rightarrow> string \<Rightarrow> error + Collection" where
  "getCollectionFromCache self name =
     (case map_of (collectionCache self) name of
        Some collection \<Rightarrow> Inr collection
      | None \<Rightarrow> Inl CollectionNotFound)"

definition refreshCollection :: "'s SqlBackend \<Rightarrow> string \<Rightarrow> error option \<times> 's SqlBackend" where
  "refreshCollection self name =
     (case refreshCollectionFunc self (db self) (TrimPrefix (connDataset self) ''/'') name of
        Inr collection \<Rightarrow>
          (None,
           if length (Fields collection) > 0
           then (called [CallTableDetails name] self)
                  \<lparr>collectionCache :=
                     AList.update (Collection_Name collection) collection (collectionCache self)\<rparr>
           else called [CallTableDetails name] self)
      | Inl err \<Rightarrow> (Some err, called [CallTableDetails name] self))"

text \<open>
  The loop over the rows of the list-all-tables query: a scanned name joins \<^verbatim>\<open>knownTables\<close>
  and is refreshed (an error there is only logged); a row that fails to scan is only logged.
\<close>

fun refreshAll_rows ::
  "(error + string) list \<Rightarrow> string list \<Rightarrow> 's SqlBackend \<Rightarrow> string list \<times> 's SqlBackend" where
  "refreshAll_rows [] knownTables self = (knownTables, self)"
| "refreshAll_rows (Inr tableName # rest) knownTables self =
     refreshAll_rows rest (knownTables @ [tableName]) (snd (refreshCollection self tableName))"
| "refreshAll_rows (Inl err # rest) knownTables self = refreshAll_rows rest knownTables self"

text \<open>The purge loop over the cached names.\<close>

fun purge :: "string list \<Rightarrow> string list \<Rightarrow> 's SqlBackend \<Rightarrow> 's SqlBackend" where
  "purge knownTables [] self = self"
| "purge knownTables (cached # rest) self =
     (if \<not> ContainsString knownTables cached
      then purge knownTables rest
             (self\<lparr>collectionCache := AList.delete cached (collectionCache self)\<rparr>)
      else purge knownTables rest self)"

definition refreshAllCollections ::
  "'s Driver \<Rightarrow> 's SqlBackend \<Rightarrow> error option \<times> 's SqlBackend" where
  "refreshAllCollections drv self =
     (case ListTables drv (listAllTablesQuery self) (db self) of
        Inr (rows, rowsErr) \<Rightarrow>
          (let (knownTables, self1) = refreshAll_rows rows [] (called [CallListTables] self);
               cachedTables = map fst (collectionCache self1)
           in (rowsErr, purge knownTables cachedTables self1))
      | Inl err \<Rightarrow> (Some err, called [CallListTables] self))"

definition GetCollection ::
  "'s SqlBackend \<Rightarrow> string \<Rightarrow> (error + Collection) \<times> 's SqlBackend" where
  "GetCollection self name =
     (case refreshCollection self name of
        (None, self1) \<Rightarrow>
          (case getCollectionFromCache self1 name of
             Inr collection \<Rightarrow> (Inr collection, self1)
           | Inl err \<Rightarrow> (Inl err, self1))
      | (Some err, self1) \<Rightarrow> (Inl err, self1))"

text \<open>
  \<^verbatim>\<open>maputil.StringKeys\<close> gives the keys of a Go map in no fixed order: the result is their
  set.
\<close>

definition ListCollections ::
  "'s Driver \<Rightarrow> 's SqlBackend \<Rightarrow> (error + string set) \<times> 's SqlBackend" where
  "ListCollections drv self =
     (case refreshAllCollections drv self of
        (None, self1) \<Rightarrow> (Inr (set (map fst (collectionCache self1))), self1)
      | (Some err, self1) \<Rightarrow> (Inl err, self1))"

subsection \<open>Query generator setup\<close>

fun makeQueryGen_fields :: "Field list \<Rightarrow> Sql \<Rightarrow> Sql" where
  "makeQueryGen_fields [] queryGen = queryGen"
| "makeQueryGen_fields (field # rest) queryGen =
     (if Identity field \<or> Key field then makeQueryGen_fields rest queryGen
      else if Field_Type field = StringType
      then makeQueryGen_fields rest
             (queryGen\<lparr>NormalizeFields := NormalizeFields queryGen @ [Field_Name field]\<rparr>)
      else makeQueryGen_fields rest queryGen)"

definition makeQueryGen :: "Collab \<Rightarrow> 's SqlBackend \<Rightarrow> Collection option \<Rightarrow> Sql" where
  "makeQueryGen cb self collection =
     (let g0 = (NewSqlGenerator cb)\<lparr>TypeMapping := queryGenTypeMapping self\<rparr>;
          g1 = (if queryGenPlaceholderFormat self \<noteq> []
                then g0\<lparr>PlaceholderFormat := queryGenPlaceholderFormat self\<rparr> else g0);
          g2 = (if queryGenPlaceholderArgument self \<noteq> []
                then g1\<lparr>PlaceholderArgument := queryGenPlaceholderArgument self\<rparr> else g1);
          g3 = (if queryGenTableFormat self \<noteq> []
                then g2\<lparr>TableNameFormat := queryGenTableFormat self\<rparr> else g2);
          g4 = (if queryGenFieldFormat self \<noteq> []
                then g3\<lparr>FieldNameFormat := queryGenFieldFormat self\<rparr> else g3)
      in case collection of
           None \<Rightarrow> g4
         | Some c \<Rightarrow>
             (let g5 = makeQueryGen_fields (Fields c) g4
              in if queryGenNormalizerFormat self \<noteq> []
                 then g5\<lparr>NormalizerFormat := queryGenNormalizerFormat self\<rparr> else g5))"

subsection \<open>Insert\<close>

text \<open>
  The inner loop \<^verbatim>\<open>for k, v := range record.Fields\<close>; the association list gives the
  order in which the map is walked.
\<close>

fun Insert_fields :: "Collab \<Rightarrow> Collection \<Rightarrow> (string \<times> val) list \<Rightarrow> Sql \<Rightarrow> error + Sql" where
  "Insert_fields cb collection [] queryGen = Inr queryGen"
| "Insert_fields cb collection ((k, v) # rest) queryGen =
     (case ConvertValue (fieldConvert cb) collection k v of
        Inr cV \<Rightarrow>
          Insert_fields cb collection rest
            (queryGen\<lparr>InputData := AList.update k cV (InputData queryGen)\<rparr>)
      | Inl err \<Rightarrow> Inl err)"

text \<open>
  \<^verbatim>\<open>record.ID != ``\<close> compares an \<^verbatim>\<open>interface{}\<close> with a string: it is false only for the
  empty string itself.
\<close>

definition Insert_identity :: "Collab \<Rightarrow> Collection \<Rightarrow> Record \<Rightarrow> Sql \<Rightarrow> error + Sql" where
  "Insert_identity cb collection record queryGen =
     (if ID record \<noteq> VStr []
      then (case ConvertValue (fieldConvert cb) collection (IdentityField collection) (ID record) of
              Inr v \<Rightarrow>
                Inr (queryGen\<lparr>InputData :=
                       AList.update (IdentityField collection) v (InputData queryGen)\<rparr>)
            | Inl err \<Rightarrow> Inl err)
      else Inr queryGen)"

text \<open>
  One pass of the loop over the records, on the transaction's copy \<open>tx\<close> of the store and
  the calls made so far. An error result is followed by the rollback in \<open>Insert\<close>.
\<close>

definition Insert_record ::
  "'s Driver \<Rightarrow> Collab \<Rightarrow> 's SqlBackend \<Rightarrow> Collection \<Rightarrow> Record \<Rightarrow> 's \<times> event list
     \<Rightarrow> error option \<times> 's \<times> event list" where
  "Insert_record drv cb self collection record st =
     (let queryGen = (makeQueryGen cb self (Some collection))\<lparr>Sql_Type := SqlInsertStatement\<rparr>
      in case Insert_fields cb collection (Record_Fields record) queryGen of
           Inl err \<Rightarrow> (Some err, st)
         | Inr queryGen1 \<Rightarrow>
             (case Insert_identity cb collection record queryGen1 of
                Inl err \<Rightarrow> (Some err, st)
              | Inr queryGen2 \<Rightarrow>
                  (case Render cb queryGen2 (Collection_Name collection) (Null cb) of
                     Inl err \<Rightarrow> (Some err, st)
                   | Inr (stmt, values) \<Rightarrow>
                       (case Exec drv stmt values (fst st) of
                          Inl err \<Rightarrow> (Some err, fst st, snd st @ [CallExec stmt values])
                        | Inr tx' \<Rightarrow> (None, tx', snd st @ [CallExec stmt values])))))"

fun Insert_records ::
  "'s Driver \<Rightarrow> Collab \<Rightarrow> 's SqlBackend \<Rightarrow> Collection \<Rightarrow> Record list \<Rightarrow> 's \<times> event list
     \<Rightarrow> error option \<times> 's \<times> event list" where
  "Insert_records drv cb self collection [] st = (None, st)"
| "Insert_records drv cb self collection (record # rest) st =
     (case Insert_record drv cb self collection record st of
        (Some err, st') \<Rightarrow> (Some err, st')
      | (None, st') \<Rightarrow> Insert_records drv cb self collection rest st')"

definition setSqlMode :: string where
  "setSqlMode = ''SET sql_mode='' @ [CHR 0x27] @ ''NO_AUTO_VALUE_ON_ZERO'' @ [CHR 0x27]"

definition Insert_mode :: "'s Driver \<Rightarrow> 's SqlBackend \<Rightarrow> 's \<times> event list \<Rightarrow> error option \<times> 's \<times> event list" where
  "Insert_mode drv self st =
     (if connBackend self = ''mysql''
      then (case Exec drv setSqlMode [] (fst st) of
              Inl err \<Rightarrow> (Some err, fst st, snd st @ [CallExec setSqlMode []])
            | Inr tx' \<Rightarrow> (None, tx', snd st @ [CallExec setSqlMode []]))
      else (None, st))"

text \<open>The tail shared by \<^verbatim>\<open>Insert\<close> and \<^verbatim>\<open>Update\<close>: commit, then push the batch to the index.\<close>

definition commitAndIndex ::
  "'s Driver \<Rightarrow> 's SqlBackend \<Rightarrow> Collection \<Rightarrow> RecordSet \<Rightarrow> 's \<times> event list
     \<Rightarrow> error option \<times> 's SqlBackend" where
  "commitAndIndex drv self collection recordset st =
     (case Commit drv (fst st) of
        None \<Rightarrow>
          (case indexer self of
             Some search \<Rightarrow>
               (case Index search (Collection_Name collection) recordset of
                  Some err \<Rightarrow>
                    (Some err,
                     self\<lparr>db := fst st,
                          calls := snd st @ [CallCommit, CallIndex (Collection_Name collection)]\<rparr>)
                | None \<Rightarrow>
                    (None,
                     self\<lparr>db := fst st,
                          calls := snd st @ [CallCommit, CallIndex (Collection_Name collection)]\<rparr>))
           | None \<Rightarrow> (None, self\<lparr>db := fst st, calls := snd st @ [CallCommit]\<rparr>))
      | Some err \<Rightarrow> (Some err, self\<lparr>calls := snd st @ [CallCommit]\<rparr>))"

definition Insert ::
  "'s Driver \<Rightarrow> Collab \<Rightarrow> 's SqlBackend \<Rightarrow> string \<Rightarrow> RecordSet \<Rightarrow> error option \<times> 's SqlBackend" where
  "Insert drv cb self name recordset =
     (case getCollectionFromCache self name of
        Inr collection \<Rightarrow>
          (case Begin drv (db self) of
             None \<Rightarrow>
               (case Insert_mode drv self (db self, calls self @ [CallBegin]) of
                  (Some err, st) \<Rightarrow> (Some err, self\<lparr>calls := snd st @ [CallRollback]\<rparr>)
                | (None, st) \<Rightarrow>
                    (case Insert_records drv cb self collection (Records recordset) st of
                       (Some err, st') \<Rightarrow> (Some err, self\<lparr>calls := snd st' @ [CallRollback]\<rparr>)
                     | (None, st') \<Rightarrow> commitAndIndex drv self collection recordset st'))
           | Some err \<Rightarrow> (Some err, called [CallBegin] self))
      | Inl err \<Rightarrow> (Some err, self))"

subsection \<open>Update\<close>

definition zeroFilter :: Filter where
  "zeroFilter = \<lparr>Criteria = [], Filter_Fields = [], Filter_Limit = 0, Filter_Offset = 0\<rparr>"

definition mustTarget :: error where
  "mustTarget = Errorf ''Update must target at least one record''"

text \<open>The filter of one record: the batch-wide target for an empty ID, else identity equality.\<close>

definition Update_filter ::
  "Collab \<Rightarrow> Collection \<Rightarrow> Record \<Rightarrow> string list \<Rightarrow> Filter \<Rightarrow> error + Filter" where
  "Update_filter cb collection record target targetFilter =
     (if ID record = VStr []
      then (if length target > 0 then Inr targetFilter else Inl mustTarget)
      else (case FromMap cb [(IdentityField collection, ID record)] of
              Inr f \<Rightarrow> Inr f
            | Inl err \<Rightarrow> Inl err))"

fun Update_fields :: "Collection \<Rightarrow> (string \<times> val) list \<Rightarrow> Sql \<Rightarrow> Sql" where
  "Update_fields collection [] queryGen = queryGen"
| "Update_fields collection ((k, v) # rest) queryGen =
     (if k \<noteq> IdentityField collection
      then Update_fields collection rest
             (queryGen\<lparr>InputData := AList.update k v (InputData queryGen)\<rparr>)
      else Update_fields collection rest queryGen)"

definition Update_record ::
  "'s Driver \<Rightarrow> Collab \<Rightarrow> 's SqlBackend \<Rightarrow> Collection \<Rightarrow> string list \<Rightarrow> Filter \<Rightarrow> Record
     \<Rightarrow> 's \<times> event list \<Rightarrow> error option \<times> 's \<times> event list" where
  "Update_record drv cb self collection target targetFilter record st =
     (let queryGen = (makeQueryGen cb self (Some collection))\<lparr>Sql_Type := SqlUpdateStatement\<rparr>
      in case Update_filter cb collection record target targetFilter of
           Inl err \<Rightarrow> (Some err, st)
         | Inr recordUpdateFilter \<Rightarrow>
             (let queryGen1 = Update_fields collection (Record_Fields record) queryGen
              in case Render cb queryGen1 (Collection_Name collection) recordUpdateFilter of
                   Inl err \<Rightarrow> (Some err, st)
                 | Inr (stmt, values) \<Rightarrow>
                     (case Exec drv stmt values (fst st) of
                        Inl err \<Rightarrow> (Some err, fst st, snd st @ [CallExec stmt values])
                      | Inr tx' \<Rightarrow> (None, tx', snd st @ [CallExec stmt values]))))"

fun Update_records ::
  "'s Driver \<Rightarrow> Collab \<Rightarrow> 's SqlBackend \<Rightarrow> Collection \<Rightarrow> string list \<Rightarrow> Filter \<Rightarrow> Record list
     \<Rightarrow> 's \<times> event list \<Rightarrow> error option \<times> 's \<times> event list" where
  "Update_records drv cb self collection target targetFilter [] st = (None, st)"
| "Update_records drv cb self collection target targetFilter (record # rest) st =
     (case Update_record drv cb self collection target targetFilter record st of
        (Some err, st') \<Rightarrow> (Some err, st')
      | (None, st') \<Rightarrow> Update_records drv cb self collection target targetFilter rest st')"

definition Update_target :: "Collab \<Rightarrow> string list \<Rightarrow> error + Filter" where
  "Update_target cb target =
     (case target of
        [] \<Rightarrow> Inr zeroFilter
      | t # ts \<Rightarrow> (case Parse cb t of Inr f \<Rightarrow> Inr f | Inl err \<Rightarrow> Inl err))"

definition Update ::
  "'s Driver \<Rightarrow> Collab \<Rightarrow> 's SqlBackend \<Rightarrow> string \<Rightarrow> RecordSet \<Rightarrow> string list
     \<Rightarrow> error option \<times> 's SqlBackend" where
  "Update drv cb self name recordset target =
     (case Update_target cb target of
        Inl err \<Rightarrow> (Some err, self)
      | Inr targetFilter \<Rightarrow>
          (case getCollectionFromCache self name of
             Inr collection \<Rightarrow>
               (case Begin drv (db self) of
                  None \<Rightarrow>
                    (case Update_records drv cb self collection target targetFilter
                            (Records recordset) (db self, calls self @ [CallBegin]) of
                       (Some err, st') \<Rightarrow> (Some err, self\<lparr>calls := snd st' @ [CallRollback]\<rparr>)
                     | (None, st') \<Rightarrow> commitAndIndex drv self collection recordset st')
                | Some err \<Rightarrow> (Some err, called [CallBegin] self))
           | Inl err \<Rightarrow> (Some err, self)))"

subsection \<open>Delete\<close>

definition Delete ::
  "'s Driver \<Rightarrow> Collab \<Rightarrow> 's SqlBackend \<Rightarrow> string \<Rightarrow> val list \<Rightarrow> error option \<times> 's SqlBackend" where
  "Delete drv cb self name ids =
     (case getCollectionFromCache self name of
        Inr collection \<Rightarrow>
          (let f = AddCriteria (MakeFilter cb)
                     \<lparr>Criterion_Field = IdentityField collection, Values = ids\<rparr>
           in case Begin drv (db self) of
                None \<Rightarrow>
                  (let queryGen = (makeQueryGen cb self (Some collection))
                                    \<lparr>Sql_Type := SqlDeleteStatement\<rparr>
                   in case Render cb queryGen (Collection_Name collection) f of
                        Inr (stmt, values) \<Rightarrow>
                          (case Exec drv stmt values (db self) of
                             Inr tx' \<Rightarrow>
                               (case Commit drv tx' of
                                  None \<Rightarrow>
                                    (case indexer self of
                                       Some search \<Rightarrow>
                                         (IndexRemove search (Collection_Name collection) ids,
                                          (called [CallBegin, CallExec stmt values, CallCommit,
                                                   CallIndexRemove (Collection_Name collection)] self)
                                            \<lparr>db := tx'\<rparr>)
                                     | None \<Rightarrow>
                                         (None,
                                          (called [CallBegin, CallExec stmt values, CallCommit] self)
                                            \<lparr>db := tx'\<rparr>))
                                | Some err \<Rightarrow>
                                    (Some err,
                                     called [CallBegin, CallExec stmt values, CallCommit] self))
                           | Inl err \<Rightarrow>
                               (Some err,
                                called [CallBegin, CallExec stmt values, CallRollback] self))
                      | Inl err \<Rightarrow> (Some err, called [CallBegin, CallRollback] self))
              | Some err \<Rightarrow> (Some err, called [CallBegin] self))
      | Inl err \<Rightarrow> (Some err, self))"

subsection \<open>Exists\<close>

text \<open>
  Every failure falls through to \<^verbatim>\<open>return false\<close>. Once the transaction is open, the
  deferred \<^verbatim>\<open>tx.Commit()\<close> runs on the way out; nothing was executed in it.
\<close>

definition Exists ::
  "'s Driver \<Rightarrow> Collab \<Rightarrow> 's SqlBackend \<Rightarrow> string \<Rightarrow> val \<Rightarrow> bool \<times> 's SqlBackend" where
  "Exists drv cb self name ident =
     (case getCollectionFromCache self name of
        Inr collection \<Rightarrow>
          (case Begin drv (db self) of
             None \<Rightarrow>
               (case FromMap cb [(IdentityField collection, ident)] of
                  Inr f0 \<Rightarrow>
                    (let f = f0\<lparr>Filter_Fields := [IdentityField collection]\<rparr>;
                         queryGen = makeQueryGen cb self (Some collection)
                     in case Initialize cb queryGen (Collection_Name collection) of
                          Inr queryGen1 \<Rightarrow>
                            (case Render cb queryGen1 (Collection_Name collection) f of
                               Inr (stmt, values) \<Rightarrow>
                                 (case Query drv stmt values (db self) of
                                    Inr rows \<Rightarrow>
                                      (rows \<noteq> [],
                                       called [CallBegin, CallQuery stmt values, CallCommit] self)
                                  | Inl err \<Rightarrow>
                                      (False,
                                       called [CallBegin, CallQuery stmt values, CallCommit] self))
                             | Inl err \<Rightarrow> (False, called [CallBegin, CallCommit] self))
                        | Inl err \<Rightarrow> (False, called [CallBegin, CallCommit] self))
                | Inl err \<Rightarrow> (False, called [CallBegin, CallCommit] self))
           | Some err \<Rightarrow> (False, called [CallBegin] self))
      | Inl err \<Rightarrow> (False, self))"

subsection \<open>CreateCollection\<close>

text \<open>
  The loop over \<^verbatim>\<open>definition.Fields\<close>, with the column definitions and the default values
  collected so far.
\<close>

definition columnDef :: "Collab \<Rightarrow> Sql \<Rightarrow> Field \<Rightarrow> string \<Rightarrow> string" where
  "columnDef cb gen field nativeType =
     (let def0 = ToFieldName cb gen (Field_Name field) @ '' '' @ nativeType;
          def1 = (if Required field then def0 @ '' NOT NULL'' else def0);
          def2 = (if Unique field then def1 @ '' UNIQUE'' else def1)
      in if DefaultValue field \<noteq> VNil then def2 @ '' DEFAULT ?'' else def2)"

fun CreateCollection_fields ::
  "Collab \<Rightarrow> Sql \<Rightarrow> Field list \<Rightarrow> string list \<Rightarrow> val list \<Rightarrow> error + (string list \<times> val list)" where
  "CreateCollection_fields cb gen [] fs values = Inr (fs, values)"
| "CreateCollection_fields cb gen (field # rest) fs values =
     (case ToNativeType cb gen (Field_Type field) (Length field) of
        Inr nativeType \<Rightarrow>
          CreateCollection_fields cb gen rest
            (fs @ [columnDef cb gen field nativeType])
            (if DefaultValue field \<noteq> VNil then values @ [DefaultValue field] else values)
      | Inl err \<Rightarrow> Inl err)"

definition primaryKey :: "Collab \<Rightarrow> 's SqlBackend \<Rightarrow> Sql \<Rightarrow> Collection \<Rightarrow> string list" where
  "primaryKey cb self gen defn =
     (if IdentityField defn \<noteq> []
      then (case IdentityFieldType defn of
              StringType \<Rightarrow>
                [Sprintf cb (createPrimaryKeyStrFormat self)
                   (ToFieldName cb gen (IdentityField defn))]
            | _ \<Rightarrow>
                [Sprintf cb (createPrimaryKeyIntFormat self)
                   (ToFieldName cb gen (IdentityField defn))])
      else [])"

text \<open>
  The caller's \<^verbatim>\<open>definition\<close> is a pointer and is assigned to; it is returned as the third
  component. The deferred \<^verbatim>\<open>refreshAllCollections\<close> runs after \<^verbatim>\<open>tx.Commit()\<close> has returned,
  whatever it returned.
\<close>

definition CreateCollection ::
  "'s Driver \<Rightarrow> Collab \<Rightarrow> 's SqlBackend \<Rightarrow> Collection
     \<Rightarrow> error option \<times> 's SqlBackend \<times> Collection" where
  "CreateCollection drv cb self defn0 =
     (let defn = (if IdentityField defn0 = []
                  then defn0\<lparr>IdentityField := DefaultIdentityField\<rparr> else defn0);
          gen = makeQueryGen cb self (Some defn);
          query0 = ''CREATE TABLE '' @ ToTableName cb gen (Collection_Name defn) @ '' (''
      in case CreateCollection_fields cb gen (Fields defn) (primaryKey cb self gen defn) [] of
           Inl err \<Rightarrow> (Some err, self, defn)
         | Inr (fs, values) \<Rightarrow>
             (let query = query0 @ Join fs '', '' @ '')''
              in case Begin drv (db self) of
                   None \<Rightarrow>
                     (case Exec drv query values (db self) of
                        Inr tx' \<Rightarrow>
                          (case Commit drv tx' of
                             None \<Rightarrow>
                               (None,
                                snd (refreshAllCollections drv
                                       ((called [CallBegin, CallExec query values, CallCommit] self)
                                          \<lparr>db := tx'\<rparr>)),
                                defn)
                           | Some err \<Rightarrow>
                               (Some err,
                                snd (refreshAllCollections drv
                                       (called [CallBegin, CallExec query values, CallCommit] self)),
                                defn))
                      | Inl err \<Rightarrow>
                          (Some err,
                           called [CallBegin, CallExec query values, CallRollback] self, defn))
                 | Some err \<Rightarrow> (Some err, called [CallBegin] self, defn)))"

subsection \<open>DeleteCollection\<close>

definition DeleteCollection ::
  "'s Driver \<Rightarrow> Collab \<Rightarrow> 's SqlBackend \<Rightarrow> string \<Rightarrow> error option \<times> 's SqlBackend" where
  "DeleteCollection drv cb self collectionName =
     (case getCollectionFromCache self collectionName of
        Inr collection \<Rightarrow>
          (let gen = makeQueryGen cb self (Some collection)
           in case Begin drv (db self) of
                None \<Rightarrow>
                  (let query = Sprintf cb (dropTableQuery self)
                                 (ToTableName cb gen collectionName)
                   in case Exec drv query [] (db self) of
                        Inr tx' \<Rightarrow>
                          (case Commit drv tx' of
                             None \<Rightarrow>
                               (None,
                                (called [CallBegin, CallExec query [], CallCommit] self)
                                  \<lparr>db := tx'\<rparr>)
                           | Some err \<Rightarrow>
                               (Some err, called [CallBegin, CallExec query [], CallCommit] self))
                      | Inl err \<Rightarrow>
                          (Some err, called [CallBegin, CallExec query [], CallRollback] self))
              | Some err \<Rightarrow> (Some err, called [CallBegin] self))
      | Inl err \<Rightarrow> (Some err, self))"

section \<open>A small dialect and store for concrete runs\<close>

text \<open>
  An instance of the collaborators, used only to run the operations on concrete inputs.
  The store keeps the live tables with their columns and the statements applied to it.
\<close>

record exStore =
  tables :: "(string \<times> Field list) list"
  applied :: "(string \<times> val list) list"

definition exField :: "string \<Rightarrow> Type \<Rightarrow> Field" where
  "exField name t =
     \<lparr>Field_Name = name, Field_Type = t, Length = 0, Required = False, Unique = False,
      Identity = False, Key = False, DefaultValue = VNil\<rparr>"

definition exUsers :: Collection where
  "exUsers = AddFields (NewCollection ''users'')
     [(exField ''id'' IntType)\<lparr>Identity := True\<rparr>, exField ''name'' StringType,
      exField ''age'' IntType]"

definition typeOf :: "val \<Rightarrow> Type" where
  "typeOf v = (case v of VNil \<Rightarrow> UnsetType | VStr s \<Rightarrow> StringType | VInt n \<Rightarrow> IntType
                | VBool b \<Rightarrow> BooleanType | VType t \<Rightarrow> ObjectType)"

definition exConvert :: "Field \<Rightarrow> val \<Rightarrow> error + val" where
  "exConvert field v =
     (if typeOf v = Field_Type field then Inr v else Inl (External ''cannot convert value''))"

definition exKeyword :: "StatementType \<Rightarrow> string" where
  "exKeyword t = (case t of SqlSelectStatement \<Rightarrow> ''SELECT'' | SqlInsertStatement \<Rightarrow> ''INSERT''
                  | SqlUpdateStatement \<Rightarrow> ''UPDATE'' | SqlDeleteStatement \<Rightarrow> ''DELETE'')"

definition exRender :: "Sql \<Rightarrow> string \<Rightarrow> Filter \<Rightarrow> error + (string \<times> val list)" where
  "exRender g name f =
     Inr (exKeyword (Sql_Type g) @ '' '' @ name,
          map snd (InputData g) @ concat (map Values (Criteria f)))"

definition exFromMap :: "(string \<times> val) list \<Rightarrow> error + Filter" where
  "exFromMap kvs =
     Inr (zeroFilter\<lparr>Criteria := map (\<lambda>kv. \<lparr>Criterion_Field = fst kv, Values = [snd kv]\<rparr>) kvs\<rparr>)"

definition exParse :: "string \<Rightarrow> error + Filter" where
  "exParse spec =
     (if CHR ''/'' \<in> set spec
      then exFromMap [(takeWhile (\<lambda>c. c \<noteq> CHR ''/'') spec,
                       VStr (drop 1 (dropWhile (\<lambda>c. c \<noteq> CHR ''/'') spec)))]
      else Inl (External ''invalid filter spec''))"

definition exNativeType :: "Type \<Rightarrow> error + string" where
  "exNativeType t = (case t of StringType \<Rightarrow> Inr ''TEXT'' | IntType \<Rightarrow> Inr ''INTEGER''
                     | BooleanType \<Rightarrow> Inr ''INTEGER(1)'' | FloatType \<Rightarrow> Inr ''REAL''
                     | TimeType \<Rightarrow> Inr ''TEXT'' | ObjectType \<Rightarrow> Inr ''BLOB''
                     | RawType \<Rightarrow> Inr ''BLOB'' | UnsetType \<Rightarrow> Inl (External ''no native type''))"

text \<open>
  The instance of \<^verbatim>\<open>fmt.Sprintf\<close> with one string argument: it agrees with it on formats
  whose verbs are \<^verbatim>\<open>%s\<close>, \<^verbatim>\<open>%v\<close> and \<^verbatim>\<open>%%\<close> (an argument no verb takes is appended as
  \<^verbatim>\<open>%!(EXTRA string=...)\<close>, a verb left without argument prints \<^verbatim>\<open>%!s(MISSING)\<close>, a lone
  \<^verbatim>\<open>%\<close> at the end \<^verbatim>\<open>%!(NOVERB)\<close>). Other verbs are printed as a verb that does not fit a
  string; flags and widths are not read. The runs use \<^verbatim>\<open>%s\<close> only.
\<close>

fun exSprintf_scan :: "string \<Rightarrow> string \<Rightarrow> bool \<Rightarrow> string" where
  "exSprintf_scan [] arg used = (if used then [] else ''%!(EXTRA string='' @ arg @ '')'')"
| "exSprintf_scan [c] arg used =
     (if c = CHR ''%'' then ''%!(NOVERB)'' @ exSprintf_scan [] arg used
      else c # exSprintf_scan [] arg used)"
| "exSprintf_scan (c # d # rest) arg used =
     (if c \<noteq> CHR ''%'' then c # exSprintf_scan (d # rest) arg used
      else if d = CHR ''%'' then CHR ''%'' # exSprintf_scan rest arg used
      else if used then ''%!'' @ [d] @ ''(MISSING)'' @ exSprintf_scan rest arg True
      else if d = CHR ''s'' \<or> d = CHR ''v'' then arg @ exSprintf_scan rest arg True
      else ''%!'' @ [d] @ ''(string='' @ arg @ '')'' @ exSprintf_scan rest arg True)"

definition exSprintf :: "string \<Rightarrow> string \<Rightarrow> string" where
  "exSprintf format arg = exSprintf_scan format arg False"

definition exCollab :: Collab where
  "exCollab =
     \<lparr>fieldConvert = exConvert,
      NewSqlGenerator =
        \<lparr>Sql_Type = SqlSelectStatement, InputData = [], NormalizeFields = [], TypeMapping = [],
         PlaceholderFormat = ''?'', PlaceholderArgument = [], TableNameFormat = ''%s'',
         FieldNameFormat = ''%s'', NormalizerFormat = ''%s''\<rparr>,
      Parse = exParse, FromMap = exFromMap, MakeFilter = zeroFilter, Null = zeroFilter,
      Initialize = (\<lambda>g name. Inr g), Render = exRender,
      ToTableName = (\<lambda>g name. exSprintf (TableNameFormat g) name),
      ToFieldName = (\<lambda>g name. exSprintf (FieldNameFormat g) name),
      ToNativeType = (\<lambda>g t n. exNativeType t), Sprintf = exSprintf\<rparr>"

definition exDriver :: "exStore Driver" where
  "exDriver =
     \<lparr>Begin = (\<lambda>s. None),
      Exec = (\<lambda>stmt values s.
                if stmt = [] then Inl (External ''empty statement'')
                else Inr (s\<lparr>applied := applied s @ [(stmt, values)]\<rparr>)),
      Query = (\<lambda>stmt values s.
                 Inr (map snd (filter (\<lambda>r. list_all (\<lambda>v. v \<in> set (snd r)) values) (applied s)))),
      Commit = (\<lambda>s. None),
      ListTables = (\<lambda>q s. Inr (map (\<lambda>t. Inr (fst t)) (tables s), None))\<rparr>"

text \<open>
  Modelled from the spec: the dialects' introspection functions are assigned outside the
  files at hand. The spec (4.3) has \<^verbatim>\<open>refreshOne\<close> fetch the structural details of a single
  table; a table the store does not have has no columns.
\<close>

definition exTableDetails :: "exStore \<Rightarrow> string \<Rightarrow> string \<Rightarrow> error + Collection" where
  "exTableDetails s dataset name =
     Inr ((NewCollection name)
            \<lparr>Fields := (case map_of (tables s) name of Some fs \<Rightarrow> fs | None \<Rightarrow> [])\<rparr>)"

definition exBackend :: "exStore SqlBackend" where
  "exBackend =
     \<lparr>connBackend = ''sqlite'', connDataset = ''/test'',
      db = \<lparr>tables = [(''users'', Fields exUsers)], applied = []\<rparr>,
      indexer = None, queryGenTypeMapping = [], queryGenPlaceholderArgument = [],
      queryGenPlaceholderFormat = ''?'', queryGenTableFormat = [], queryGenFieldFormat = [],
      queryGenNormalizerFormat = [],
      listAllTablesQuery = ''SELECT name FROM sqlite_master'',
      createPrimaryKeyIntFormat = ''%s INTEGER PRIMARY KEY ASC'',
      createPrimaryKeyStrFormat = ''%s TEXT PRIMARY KEY'',
      refreshCollectionFunc = exTableDetails, dropTableQuery = ''DROP TABLE %s'',
      collectionCache = [(''users'', exUsers)], calls = []\<rparr>"

definition exRecord :: "val \<Rightarrow> (string \<times> val) list \<Rightarrow> Record" where
  "exRecord i fs = \<lparr>ID = i, Record_Fields = fs\<rparr>"

definition exRecordSet :: "Record list \<Rightarrow> RecordSet" where
  "exRecordSet rs =
     \<lparr>ResultCount = 0, RecordSet_Page = 0, RecordSet_TotalPages = 0, RecordsPerPage = 0,
      Records = rs\<rparr>"

definition exPage :: "int \<Rightarrow> IndexPage" where
  "exPage n =
     \<lparr>IndexPage_Page = 0, IndexPage_TotalPages = n, IndexPage_Limit = 20,
      IndexPage_Offset = 40, TotalResults = 101\<rparr>"

definition exFilter :: Filter where
  "exFilter = zeroFilter\<lparr>Filter_Limit := 20, Filter_Offset := 40\<rparr>"

definition exBatch :: RecordSet where
  "exBatch = exRecordSet
     [exRecord (VStr []) [(''name'', VStr ''a'')],
      exRecord (VStr []) [(''age'', VStr ''x'')],
      exRecord (VStr []) [(''name'', VStr ''c'')]]"

definition exStale :: "exStore SqlBackend" where
  "exStale = exBackend
     \<lparr>collectionCache :=
        [(''users'', exUsers), (''ghost'', AddFields (NewCollection ''ghost'') [exField ''x'' IntType])]\<rparr>"

definition exDefinition :: "Type \<Rightarrow> Collection" where
  "exDefinition t =
     \<lparr>Collection_Name = ''t'',
      Fields = [(exField ''name'' StringType)\<lparr>Required := True, DefaultValue := VStr ''x''\<rparr>,
                (exField ''code'' StringType)\<lparr>Unique := True\<rparr>,
                exField ''age'' IntType],
      IdentityField = [], IdentityFieldType = t\<rparr>"

definition exWithRow :: "exStore SqlBackend" where
  "exWithRow = exBackend
     \<lparr>db := \<lparr>tables = [(''users'', Fields exUsers)],
               applied = [(''INSERT users'', [VStr ''a'', VInt 7])]\<rparr>\<rparr>"

definition exUncached :: "exStore SqlBackend" where
  "exUncached = exBackend
     \<lparr>db := \<lparr>tables = [(''users'', Fields exUsers), (''ghost'', [exField ''x'' IntType])],
               applied = []\<rparr>\<rparr>"

section \<open>Notions used in the statements\<close>

definition isExec :: "event \<Rightarrow> bool" where
  "isExec e = (case e of CallExec stmt values \<Rightarrow> True | _ \<Rightarrow> False)"

text \<open>The table names that the list-all-tables query reports and that scan.\<close>

fun scannedNames :: "(error + string) list \<Rightarrow> string list" where
  "scannedNames [] = []"
| "scannedNames (Inr tableName # rest) = tableName # scannedNames rest"
| "scannedNames (Inl err # rest) = scannedNames rest"

section \<open>Properties of the schema diff\<close>

lemma Diff_fields_append:
  "Diff_fields fieldDiff actual fs acc = acc @ concat (map (deltasOfField fieldDiff actual) fs)"
  by (induction fs arbitrary: acc) (simp_all add: deltasOfField_def isMissing_def split: option.splits)

lemma GetField_scan_own:
  "distinct (map Field_Name fs) \<Longrightarrow> f \<in> set fs \<Longrightarrow> GetField_scan fs (Field_Name f) = Some f"
  by (induction fs) force+

lemma Field_Diff_same: "Field_Diff f f = []"
  by (simp add: Field_Diff_def fieldDelta_def)

lemma Diff_unfold:
  "Diff fieldDiff desired actual =
     nameDelta desired actual @ identityFieldDelta desired actual @
     identityTypeDelta desired actual @
     concat (map (deltasOfField fieldDiff actual) (Fields desired))"
  by (simp add: Diff_def Let_def Diff_fields_append nameDelta_def identityFieldDelta_def
      identityTypeDelta_def)

lemma Diff_collection_eq:
  "Diff_collection s a = nameDelta s a @ identityFieldDelta s a @ identityTypeDelta s a"
  by (simp add: Diff_collection_def Let_def nameDelta_def identityFieldDelta_def
      identityTypeDelta_def)

lemma Diff_collection_same: "Diff_collection c c = []"
  by (simp add: Diff_collection_def)

lemma loadCollection_kept:
  "loadCollection m p = Some c \<Longrightarrow> length m \<le> length m' \<Longrightarrow>
   \<forall>x < length m. m' ! x = m ! x \<Longrightarrow> loadCollection m' p = Some c"
  by (auto simp: loadCollection_def split: if_splits)

text \<open>
  What a call of \<^verbatim>\<open>Field.Diff\<close> on the loop's two copies leaves of the memory that was there
  before the copies were made.
\<close>

lemma fieldDiffAt_frame:
  assumes w: "writesOnlyItsArguments fd"
  shows "length m \<le> length (snd (fd (m @ [x, y]) (length m) (Suc (length m))))
       \<and> (\<forall>p < length m. snd (fd (m @ [x, y]) (length m) (Suc (length m))) ! p = m ! p)"
proof -
  let ?m2 = "m @ [x, y]"
  let ?r = "fd ?m2 (length m) (Suc (length m))"
  from w have len: "length ?m2 \<le> length (snd ?r)"
    and keep: "\<forall>p < length ?m2. p \<noteq> length m \<and> p \<noteq> Suc (length m) \<longrightarrow> snd ?r ! p = ?m2 ! p"
    unfolding writesOnlyItsArguments_def by blast+
  have "snd ?r ! p = m ! p" if "p < length m" for p
  proof -
    have "p < length ?m2" "p \<noteq> length m" "p \<noteq> Suc (length m)" using that by simp_all
    with keep have "snd ?r ! p = ?m2 ! p" by blast
    then show ?thesis using that by (simp add: nth_append)
  qed
  moreover have "length m \<le> length (snd ?r)" using len by simp
  ultimately show ?thesis by blast
qed

lemma Diff_range_step_found:
  "loadCollection (m @ [FieldObj elem]) actual = Some a \<Longrightarrow>
   GetField a (Field_Name elem) = Some found \<Longrightarrow>
   Diff_range fd actual (elem # rest) ds m =
     Diff_range fd actual rest
       (ds @ fst (fd (m @ [FieldObj elem, FieldObj found]) (length m) (Suc (length m))))
       (snd (fd (m @ [FieldObj elem, FieldObj found]) (length m) (Suc (length m))))"
  by (simp add: new_def split: prod.splits)

lemma Diff_range_step_missing:
  "loadCollection (m @ [FieldObj elem]) actual = Some a \<Longrightarrow>
   GetField a (Field_Name elem) = None \<Longrightarrow>
   Diff_range fd actual (elem # rest) ds m =
     Diff_range fd actual rest
       (ds @ [\<lparr>Delta_Type = FieldDelta, Message = ''is missing'',
               Delta_Name = Field_Name elem, Parameter = [],
               Desired = VNil, Actual = VNil\<rparr>]) (m @ [FieldObj elem])"
  by (simp add: new_def)

text \<open>
  The loop returns, and what was in memory when it began is there when it ends, as long as
  \<^verbatim>\<open>Field.Diff\<close> writes only through its two arguments.
\<close>

lemma kept_trans:
  assumes "length m \<le> length m1" and "\<forall>p < length m. m1 ! p = m ! p"
    and "length m1 \<le> length m'" and "\<forall>p < length m1. m' ! p = m1 ! p"
  shows "length m \<le> length m' \<and> (\<forall>p < length m. m' ! p = m ! p)"
proof (intro conjI allI impI)
  show "length m \<le> length m'" using assms(1,3) by simp
next
  fix p
  assume p: "p < length m"
  then have "p < length m1" using assms(1) by simp
  then have "m' ! p = m1 ! p" using assms(4) by simp
  then show "m' ! p = m ! p" using assms(2) p by simp
qed

lemma kept_append: "length m \<le> length (m @ xs) \<and> (\<forall>p < length m. (m @ xs) ! p = m ! p)"
  by (simp add: nth_append)

lemma Diff_range_keeps:
  assumes w: "writesOnlyItsArguments fd"
  shows "loadCollection m actual = Some a \<Longrightarrow>
         \<exists>ds' m'. Diff_range fd actual fs ds m = Some (ds', m') \<and>
           length m \<le> length m' \<and> (\<forall>p < length m. m' ! p = m ! p)"
proof (induction fs arbitrary: ds m)
  case Nil
  then show ?case by simp
next
  case (Cons elem rest)
  let ?m1 = "m @ [FieldObj elem]"
  have k1: "length m \<le> length ?m1" "\<forall>p < length m. ?m1 ! p = m ! p"
    using kept_append [of m "[FieldObj elem]"] by blast+
  have c1: "loadCollection ?m1 actual = Some a"
    using Cons.prems k1 by (rule loadCollection_kept)
  show ?case
  proof (cases "GetField a (Field_Name elem)")
    case None
    let ?ds1 = "ds @ [\<lparr>Delta_Type = FieldDelta, Message = ''is missing'',
                Delta_Name = Field_Name elem, Parameter = [],
                Desired = VNil, Actual = VNil\<rparr>]"
    from Cons.IH [OF c1, of ?ds1] obtain ds' m' where
      r: "Diff_range fd actual rest ?ds1 ?m1 = Some (ds', m')"
      and k: "length ?m1 \<le> length m'" "\<forall>p < length ?m1. m' ! p = ?m1 ! p"
      by blast
    have "Diff_range fd actual (elem # rest) ds m = Some (ds', m')"
      unfolding Diff_range_step_missing [OF c1 None] by (rule r)
    moreover note kept_trans [OF k1 k]
    ultimately show ?thesis by blast
  next
    case (Some found)
    let ?r = "fd (m @ [FieldObj elem, FieldObj found]) (length m) (Suc (length m))"
    from fieldDiffAt_frame [OF w, of m "FieldObj elem" "FieldObj found"]
    have k2: "length m \<le> length (snd ?r)" "\<forall>p < length m. snd ?r ! p = m ! p"
      by blast+
    have c3: "loadCollection (snd ?r) actual = Some a"
      using Cons.prems k2 by (rule loadCollection_kept)
    from Cons.IH [OF c3, of "ds @ fst ?r"] obtain ds' m' where
      r: "Diff_range fd actual rest (ds @ fst ?r) (snd ?r) = Some (ds', m')"
      and k: "length (snd ?r) \<le> length m'" "\<forall>p < length (snd ?r). m' ! p = snd ?r ! p"
      by blast
    have "Diff_range fd actual (elem # rest) ds m = Some (ds', m')"
      unfolding Diff_range_step_found [OF c1 Some] by (rule r)
    moreover note kept_trans [OF k2 k]
    ultimately show ?thesis by blast
  qed
qed

lemma noDeltaOnEqualFieldsD:
  assumes "noDeltaOnEqualFields fd" and "loadField m a = Some f" and "loadField m b = Some f"
  shows "fst (fd m a b) = []"
proof -
  from assms(1) have "loadField m a = Some f \<and> loadField m b = Some f \<longrightarrow> fst (fd m a b) = []"
    unfolding noDeltaOnEqualFields_def by (elim allE)
  with assms(2,3) show ?thesis by simp
qed

text \<open>
  Over the fields of the Collection that \<^verbatim>\<open>actual\<close> points to, their names distinct, the loop
  adds nothing.
\<close>

lemma Diff_range_same:
  assumes w: "writesOnlyItsArguments fd" and n: "noDeltaOnEqualFields fd"
    and d: "distinct (map Field_Name (Fields c))"
  shows "set fs \<subseteq> set (Fields c) \<Longrightarrow> loadCollection m actual = Some c \<Longrightarrow>
         \<exists>m'. Diff_range fd actual fs ds m = Some (ds, m')"
proof (induction fs arbitrary: m)
  case Nil
  then show ?case by simp
next
  case (Cons elem rest)
  let ?m1 = "m @ [FieldObj elem]"
  let ?m2 = "m @ [FieldObj elem, FieldObj elem]"
  let ?r = "fd ?m2 (length m) (Suc (length m))"
  have k1: "length m \<le> length ?m1" "\<forall>p < length m. ?m1 ! p = m ! p"
    using kept_append [of m "[FieldObj elem]"] by blast+
  have c1: "loadCollection ?m1 actual = Some c"
    using Cons.prems(2) k1 by (rule loadCollection_kept)
  have found: "GetField c (Field_Name elem) = Some elem"
    using d Cons.prems(1) by (simp add: GetField_def GetField_scan_own)
  have "loadField ?m2 (length m) = Some elem" "loadField ?m2 (Suc (length m)) = Some elem"
    by (simp_all add: loadField_def nth_append)
  with n have nodelta: "fst ?r = []" by (rule noDeltaOnEqualFieldsD)
  from fieldDiffAt_frame [OF w, of m "FieldObj elem" "FieldObj elem"]
  have len: "length m \<le> length (snd ?r)" and keep: "\<forall>p < length m. snd ?r ! p = m ! p"
    by blast+
  have c3: "loadCollection (snd ?r) actual = Some c"
    using Cons.prems(2) len keep by (rule loadCollection_kept)
  have "set rest \<subseteq> set (Fields c)" using Cons.prems(1) by simp
  from Cons.IH [OF this c3] obtain m' where
    "Diff_range fd actual rest ds (snd ?r) = Some (ds, m')" by blast
  then have "Diff_range fd actual (elem # rest) ds m = Some (ds, m')"
    using Diff_range_step_found [OF c1 found, of fd rest ds] nodelta by simp
  then show ?case by blast
qed

lemma readingFields_writes: "writesOnlyItsArguments (readingFields fd)"
  by (auto simp: writesOnlyItsArguments_def readingFields_def split: option.splits)

lemma readingFields_noDelta: "(\<forall>f. fd f f = []) \<Longrightarrow> noDeltaOnEqualFields (readingFields fd)"
  by (auto simp: noDeltaOnEqualFields_def readingFields_def)

text \<open>
  With a \<^verbatim>\<open>Field.Diff\<close> that only reads, \<^verbatim>\<open>Diff\<close> on pointers gives the deltas of \<^verbatim>\<open>Diff\<close> on
  the two Collections, and the memory grows by the loop's copies.
\<close>

lemma Diff_range_readingFields:
  "loadCollection m q = Some a \<Longrightarrow>
   \<exists>locals. Diff_range (readingFields fd) q fs ds m =
     Some (ds @ concat (map (deltasOfField fd a) fs), m @ locals)"
proof (induction fs arbitrary: ds m)
  case Nil
  then show ?case by simp
next
  case (Cons elem rest)
  let ?m1 = "m @ [FieldObj elem]"
  have k1: "length m \<le> length ?m1" "\<forall>p < length m. ?m1 ! p = m ! p"
    using kept_append [of m "[FieldObj elem]"] by blast+
  have c1: "loadCollection ?m1 q = Some a"
    using Cons.prems k1 by (rule loadCollection_kept)
  show ?case
  proof (cases "GetField a (Field_Name elem)")
    case None
    from Cons.IH [OF c1] obtain locals where
      "Diff_range (readingFields fd) q rest (ds @ [isMissing elem]) ?m1 =
         Some ((ds @ [isMissing elem]) @ concat (map (deltasOfField fd a) rest), ?m1 @ locals)"
      by blast
    then have "Diff_range (readingFields fd) q (elem # rest) ds m =
         Some (ds @ concat (map (deltasOfField fd a) (elem # rest)), m @ (FieldObj elem # locals))"
      using Diff_range_step_missing [OF c1 None, of "readingFields fd" rest ds] None
      by (simp add: deltasOfField_def isMissing_def)
    then show ?thesis by blast
  next
    case (Some found)
    let ?m2 = "m @ [FieldObj elem, FieldObj found]"
    have k2: "length m \<le> length ?m2" "\<forall>p < length m. ?m2 ! p = m ! p"
      using kept_append [of m "[FieldObj elem, FieldObj found]"] by blast+
    have c2: "loadCollection ?m2 q = Some a"
      using Cons.prems k2 by (rule loadCollection_kept)
    have r: "readingFields fd ?m2 (length m) (Suc (length m)) = (fd elem found, ?m2)"
      by (simp add: readingFields_def loadField_def nth_append)
    from Cons.IH [OF c2] obtain locals where
      "Diff_range (readingFields fd) q rest (ds @ fd elem found) ?m2 =
         Some ((ds @ fd elem found) @ concat (map (deltasOfField fd a) rest), ?m2 @ locals)"
      by blast
    then have "Diff_range (readingFields fd) q (elem # rest) ds m =
         Some (ds @ concat (map (deltasOfField fd a) (elem # rest)),
               m @ (FieldObj elem # FieldObj found # locals))"
      using Diff_range_step_found [OF c1 Some, of "readingFields fd" rest ds] Some r
      by (simp add: deltasOfField_def)
    then show ?thesis by blast
  qed
qed

lemma Diff_at_readingFields:
  "loadCollection m p = Some s \<Longrightarrow> loadCollection m q = Some a \<Longrightarrow>
   \<exists>locals. Diff_at (readingFields fd) m p q = Some (Diff fd s a, m @ locals)"
  using Diff_range_readingFields [of m q a fd "Fields s" "Diff_collection s a"]
  by (simp add: Diff_at_def Diff_unfold Diff_collection_eq)

text \<open>
  C3. \<^verbatim>\<open>Collection.Diff\<close> is called on two pointers that hold Collections, with a
  \<^verbatim>\<open>Field.Diff\<close> that writes through no pointer but its two arguments. (1) When the two
  Collections are the same (one pointer given twice, or two equal Collections), the field
  names are pairwise distinct, as the schema model has them, and \<^verbatim>\<open>Field.Diff\<close> finds nothing
  between equal fields, \<^verbatim>\<open>Diff\<close> yields no deltas. (2) For every pair, \<^verbatim>\<open>Diff\<close> returns and
  every object that was in memory before the call is unchanged after it, the two input
  Collections among them: the call only adds the loop's own copies of the fields.
\<close>

theorem Diff_same_collection_and_inputs_kept:
  assumes w: "writesOnlyItsArguments fieldDiffAt"
    and s: "loadCollection m self = Some s"
    and a: "loadCollection m actual = Some a"
  shows "(s = a \<and> distinct (map Field_Name (Fields s)) \<and> noDeltaOnEqualFields fieldDiffAt
          \<longrightarrow> (\<exists>m'. Diff_at fieldDiffAt m self actual = Some ([], m')))
       \<and> (\<exists>ds m'. Diff_at fieldDiffAt m self actual = Some (ds, m') \<and>
            length m \<le> length m' \<and> (\<forall>x < length m. m' ! x = m ! x) \<and>
            loadCollection m' self = Some s \<and> loadCollection m' actual = Some a)"
proof (intro conjI impI)
  assume h: "s = a \<and> distinct (map Field_Name (Fields s)) \<and> noDeltaOnEqualFields fieldDiffAt"
  then have sa: "s = a" and d: "distinct (map Field_Name (Fields s))"
    and n: "noDeltaOnEqualFields fieldDiffAt"
    by blast+
  from d have d': "distinct (map Field_Name (Fields a))" unfolding sa .
  have "set (Fields a) \<subseteq> set (Fields a)" by simp
  from Diff_range_same [OF w n d' this a, of "[]"]
  have "\<exists>m'. Diff_range fieldDiffAt actual (Fields a) [] m = Some ([], m')" .
  with s a show "\<exists>m'. Diff_at fieldDiffAt m self actual = Some ([], m')"
    unfolding sa by (simp add: Diff_at_def Diff_collection_same)
next
  from Diff_range_keeps [OF w a, of "Fields s" "Diff_collection s a"]
  obtain ds m' where r: "Diff_range fieldDiffAt actual (Fields s) (Diff_collection s a) m = Some (ds, m')"
    and len: "length m \<le> length m'" and keep: "\<forall>x < length m. m' ! x = m ! x"
    by blast
  have "Diff_at fieldDiffAt m self actual = Some (ds, m')"
    using r s a by (simp add: Diff_at_def)
  moreover have "loadCollection m' self = Some s" using s len keep by (rule loadCollection_kept)
  moreover have "loadCollection m' actual = Some a" using a len keep by (rule loadCollection_kept)
  ultimately show "\<exists>ds m'. Diff_at fieldDiffAt m self actual = Some (ds, m') \<and>
            length m \<le> length m' \<and> (\<forall>x < length m. m' ! x = m ! x) \<and>
            loadCollection m' self = Some s \<and> loadCollection m' actual = Some a"
    using len keep by blast
qed

text \<open>
  A run on a memory of two Collections: \<^verbatim>\<open>users\<close> against itself gives no deltas, and both
  objects are as they were.
\<close>

theorem Diff_same_collection_witness:
  "\<exists>m'. Diff_at (readingFields Field_Diff)
            [CollectionObj exUsers, CollectionObj (NewCollection ''orders'')] 0 0 = Some ([], m')
         \<and> m' ! 0 = CollectionObj exUsers \<and> m' ! 1 = CollectionObj (NewCollection ''orders'')"
proof -
  let ?m = "[CollectionObj exUsers, CollectionObj (NewCollection ''orders'')]"
  have l: "loadCollection ?m 0 = Some exUsers"
    by (simp add: loadCollection_def)
  have d: "distinct (map Field_Name (Fields exUsers))"
    by (simp add: exUsers_def AddFields_def NewCollection_def exField_def)
  have n: "noDeltaOnEqualFields (readingFields Field_Diff)"
    by (simp add: readingFields_noDelta Field_Diff_same)
  note t = Diff_same_collection_and_inputs_kept [OF readingFields_writes l l, of Field_Diff]
  from t have "\<exists>m'. Diff_at (readingFields Field_Diff) ?m 0 0 = Some ([], m')"
    using d n by simp
  then obtain m' where 1: "Diff_at (readingFields Field_Diff) ?m 0 0 = Some ([], m')" ..
  from t have "\<exists>ds m''. Diff_at (readingFields Field_Diff) ?m 0 0 = Some (ds, m'') \<and>
      length ?m \<le> length m'' \<and> (\<forall>x < length ?m. m'' ! x = ?m ! x)"
    by blast
  then obtain ds m'' where 2: "Diff_at (readingFields Field_Diff) ?m 0 0 = Some (ds, m'')"
    and 3: "\<forall>x < length ?m. m'' ! x = ?m ! x"
    by blast
  from 1 2 have "m'' = m'" by simp
  with 3 have "\<forall>x < length ?m. m' ! x = ?m ! x" by simp
  then have "m' ! 0 = ?m ! 0" "m' ! 1 = ?m ! 1" by simp_all
  with 1 show ?thesis by simp
qed

text \<open>
  C4. \<^verbatim>\<open>Diff\<close> gives the collection-level deltas first (name, identity field name, identity
  field type, in that order), then the deltas of each field in the order \<^verbatim>\<open>desired\<close>
  declares them; a field that \<^verbatim>\<open>actual\<close> lacks gives exactly the one "is missing" delta and
  is not handed to the field-level diff.
\<close>

theorem Diff_order:
  "Diff fieldDiff desired actual =
     nameDelta desired actual @ identityFieldDelta desired actual @
     identityTypeDelta desired actual @
     concat (map (deltasOfField fieldDiff actual) (Fields desired))
   \<and> (\<forall>f. GetField actual (Field_Name f) = None \<longrightarrow>
          deltasOfField fieldDiff actual f = [isMissing f])"
proof (intro conjI allI impI)
  have loop: "Diff_fields fieldDiff actual (Fields desired) acc =
      acc @ concat (map (deltasOfField fieldDiff actual) (Fields desired))" for acc
    by (rule Diff_fields_append)
  show "Diff fieldDiff desired actual =
     nameDelta desired actual @ identityFieldDelta desired actual @
     identityTypeDelta desired actual @
     concat (map (deltasOfField fieldDiff actual) (Fields desired))"
    unfolding Diff_def Let_def loop
    by (simp add: nameDelta_def identityFieldDelta_def identityTypeDelta_def)
next
  fix f :: Field
  assume "GetField actual (Field_Name f) = None"
  then show "deltasOfField fieldDiff actual f = [isMissing f]"
    by (simp add: deltasOfField_def)
qed

theorem Diff_order_witness:
  "Diff Field_Diff
     ((NewCollection ''people'')
        \<lparr>Fields := [exField ''age'' StringType, exField ''email'' StringType],
         IdentityField := ''key''\<rparr>)
     exUsers =
     [\<lparr>Delta_Type = CollectionDelta, Message = ''names do not match'', Delta_Name = ''people'',
       Parameter = [], Desired = VStr ''people'', Actual = VStr ''users''\<rparr>,
      \<lparr>Delta_Type = CollectionDelta, Message = ''does not match'', Delta_Name = ''people'',
       Parameter = ''IdentityField'', Desired = VStr ''key'', Actual = VStr ''id''\<rparr>,
      \<lparr>Delta_Type = FieldDelta, Message = ''does not match'', Delta_Name = ''age'',
       Parameter = ''Type'', Desired = VType StringType, Actual = VType IntType\<rparr>,
      \<lparr>Delta_Type = FieldDelta, Message = ''is missing'', Delta_Name = ''email'',
       Parameter = [], Desired = VNil, Actual = VNil\<rparr>]"
  using Diff_order [of Field_Diff
      "(NewCollection ''people'')
         \<lparr>Fields := [exField ''age'' StringType, exField ''email'' StringType],
          IdentityField := ''key''\<rparr>" exUsers]
  by (simp add: nameDelta_def identityFieldDelta_def identityTypeDelta_def deltasOfField_def
      isMissing_def GetField_def exUsers_def AddFields_def NewCollection_def exField_def
      Field_Diff_def fieldDelta_def DefaultIdentityField_def DefaultIdentityFieldType_def)

section \<open>Properties of the pagination details\<close>

subsection \<open>The float64 quotient\<close>

lemma rhe_near: "\<bar>of_int (roundHalfEven x) - x\<bar> \<le> 1 / 2"
proof -
  have "of_int \<lfloor>x\<rfloor> \<le> x" "x < of_int \<lfloor>x\<rfloor> + 1" by linarith+
  then show ?thesis
    unfolding roundHalfEven_def Let_def by (auto simp: abs_le_iff) 
qed

lemma rhe_ge: "of_int j \<le> x \<Longrightarrow> j \<le> roundHalfEven x"
  using rhe_near [of x] by linarith

lemma rhe_le: "x \<le> of_int j \<Longrightarrow> roundHalfEven x \<le> j"
  using rhe_near [of x] by linarith

lemma rhe_gt: "of_int j + 1 / 2 < x \<Longrightarrow> j + 1 \<le> roundHalfEven x"
  using rhe_near [of x] by linarith

lemma rhe_lt: "x < of_int j - 1 / 2 \<Longrightarrow> roundHalfEven x \<le> j - 1"
  using rhe_near [of x] by linarith

lemma rhe_int: "roundHalfEven (of_int j) = j"
  unfolding roundHalfEven_def Let_def by simp


text \<open>Below \<open>2 ^ 53\<close> the spacing is a negative power of two, and it puts the number in the top binade of the significand.\<close>

lemma ulp_form:
  assumes "0 < x" "x < 2 ^ 53"
  shows "\<exists>k::nat. ulp x = 1 / 2 ^ k \<and> 2 ^ 52 \<le> x * 2 ^ k \<and> x * 2 ^ k < 2 ^ 53"
proof -
  define e where "e = \<lfloor>log 2 x\<rfloor>"
  have lo: "2 powr of_int e \<le> x" and hi: "x < 2 powr of_int (e + 1)"
    using assms(1) floor_log_eq_powr_iff [of x 2 e] by (simp_all add: e_def)
  have "(2::real) powr 53 = 2 ^ 53"
    using powr_realpow [of "2::real" 53] by simp
  with lo assms(2) have "(2::real) powr of_int e < 2 powr 53" by linarith
  then have "real_of_int e < 53" by (rule powr_less_cancel) simp
  then have e52: "e \<le> 52" by linarith
  define k where "k = nat (52 - e)"
  have ke: "of_int e = 52 - real k" using e52 by (simp add: k_def)
  have u: "ulp x = 1 / 2 ^ k"
    using assms(1) ke by (simp add: ulp_def e_def [symmetric] powr_minus powr_realpow divide_inverse)
  have p: "(2::real) ^ k = 2 powr (52 - of_int e)"
    using ke by (simp add: powr_realpow)
  have "2 powr of_int e * 2 powr (52 - of_int e) \<le> x * 2 ^ k"
    unfolding p using lo by (intro mult_right_mono) simp_all
  then have a: "2 ^ 52 \<le> x * 2 ^ k"
    by (simp add: powr_add [symmetric] powr_realpow [symmetric])
  have "x * 2 ^ k < 2 powr of_int (e + 1) * 2 powr (52 - of_int e)"
    unfolding p using hi by (intro mult_strict_right_mono) simp_all
  then have b: "x * 2 ^ k < 2 ^ 53"
    by (simp add: powr_add [symmetric] powr_realpow [symmetric])
  from u a b show ?thesis by blast
qed


lemma float64_pos:
  assumes "0 < x" "x < 2 ^ 53"
  shows "\<exists>k::nat. float64 x = of_int (roundHalfEven (x * 2 ^ k)) / 2 ^ k \<and> 2 ^ 52 \<le> x * 2 ^ k
           \<and> x * 2 ^ k < 2 ^ 53"
proof -
  from ulp_form [OF assms] obtain k :: nat
    where k: "ulp x = 1 / 2 ^ k" "2 ^ 52 \<le> x * 2 ^ k" "x * 2 ^ k < 2 ^ 53" by blast
  have "float64 x = of_int (roundHalfEven (x * 2 ^ k)) / 2 ^ k"
    using assms(1) k(1) by (simp add: float64_def)
  with k show ?thesis by blast
qed

text \<open>
  Rounding a quotient of integers below \<open>2 ^ 53\<close> does not cross an integer: the quotient
  is at least \<open>1 / b\<close> away from any integer it does not equal, and half a spacing is less.
\<close>

lemma float64_quot_between:
  fixes a b k :: int
  assumes a: "0 < a" "a < 2 ^ 53" and b: "0 < b" "b < 2 ^ 53"
  shows "(of_int k \<le> real_of_int a / of_int b \<longrightarrow> of_int k \<le> float64 (of_int a / of_int b))
       \<and> (real_of_int a / of_int b \<le> of_int k \<longrightarrow> float64 (of_int a / of_int b) \<le> of_int k)
       \<and> (of_int k < real_of_int a / of_int b \<longrightarrow> of_int k < float64 (of_int a / of_int b))
       \<and> (real_of_int a / of_int b < of_int k \<longrightarrow> float64 (of_int a / of_int b) < of_int k)"
proof -
  define q where "q = real_of_int a / of_int b"
  have qpos: "0 < q" using a b by (simp add: q_def)
  have "q \<le> of_int a" using a b by (simp add: q_def divide_le_eq mult_le_cancel_left1)
  moreover have ra: "real_of_int a < 2 ^ 53"
    using a(2) of_int_less_iff [of a "2 ^ 53", where ?'a = real] by simp
  ultimately have qlt: "q < 2 ^ 53" by linarith
  from float64_pos [OF qpos qlt] obtain n :: nat
    where f: "float64 q = of_int (roundHalfEven (q * 2 ^ n)) / 2 ^ n"
      and lo: "2 ^ 52 \<le> q * 2 ^ n" and hi: "q * 2 ^ n < 2 ^ 53" by blast
  define N :: real where "N = 2 ^ n"
  define M where "M = roundHalfEven (q * N)"
  have Npos: "0 < N" by (simp add: N_def)
  have Nint: "N = of_int (2 ^ n)" by (simp add: N_def)
  have fq: "float64 q = of_int M / N" using f by (simp add: M_def N_def)
  have bq: "of_int b * q = of_int a" using b by (simp add: q_def)
  have "of_int b * 2 ^ 52 \<le> of_int b * (q * N)"
    using lo b by (simp add: N_def)
  also have "\<dots> = of_int a * N" using bq by (simp add: mult.assoc [symmetric])
  also have "\<dots> < 2 ^ 53 * N" using ra Npos by simp
  finally have b2N: "real_of_int b < 2 * N" by simp
  have bpos: "0 < real_of_int b" using b by simp
  define t where "t = N / real_of_int b"
  have thalf: "1 / 2 < t"
  proof -
    have "real_of_int b * (1 / 2) < N" using b2N by simp
    then show ?thesis unfolding t_def using bpos by (simp add: pos_less_divide_eq mult.commute)
  qed
  have c1: "of_int k \<le> float64 q" if "of_int k \<le> q"
  proof -
    have "of_int (k * 2 ^ n) \<le> q * N" using that Npos by (simp add: N_def)
    then have "k * 2 ^ n \<le> M" unfolding M_def by (rule rhe_ge)
    then have "of_int k * N \<le> of_int M" unfolding Nint by (metis of_int_le_iff of_int_mult)
    then show ?thesis using Npos by (simp add: fq pos_le_divide_eq)
  qed
  have c2: "float64 q \<le> of_int k" if "q \<le> of_int k"
  proof -
    have "q * N \<le> of_int (k * 2 ^ n)" using that Npos by (simp add: N_def)
    then have "M \<le> k * 2 ^ n" unfolding M_def by (rule rhe_le)
    then have "of_int M \<le> of_int k * N" unfolding Nint by (metis of_int_le_iff of_int_mult)
    then show ?thesis using Npos by (simp add: fq pos_divide_le_eq)
  qed
  have c3: "of_int k < float64 q" if "of_int k < q"
  proof -
    have "of_int k * of_int b < real_of_int a" using that bpos by (simp add: q_def pos_less_divide_eq)
    then have "k * b < a" by (metis of_int_less_iff of_int_mult)
    then have "k * b + 1 \<le> a" by simp
    then have "of_int k * of_int b + 1 \<le> real_of_int a" by (metis of_int_le_iff of_int_mult of_int_add of_int_1)
    then have "(of_int k * of_int b + 1) / of_int b \<le> real_of_int a / of_int b"
      using bpos by (intro divide_right_mono) simp_all
    moreover have "(of_int k * of_int b + 1) / real_of_int b = of_int k + 1 / of_int b"
      using bpos by (simp add: add_divide_distrib)
    ultimately have "of_int k + 1 / of_int b \<le> q" by (simp add: q_def)
    then have "(of_int k + 1 / of_int b) * N \<le> q * N"
      using Npos by (intro mult_right_mono) simp_all
    moreover have "(of_int k + 1 / of_int b) * N = of_int k * N + t"
      by (simp add: t_def algebra_simps)
    ultimately have "of_int k * N + 1 / 2 < q * N" using thalf by linarith
    then have "of_int (k * 2 ^ n) + 1 / 2 < q * N" by (simp add: N_def)
    then have "k * 2 ^ n + 1 \<le> M" unfolding M_def by (rule rhe_gt)
    then have "of_int k * N + 1 \<le> of_int M" unfolding Nint
      by (metis of_int_le_iff of_int_mult of_int_add of_int_1)
    then have "of_int k * N < of_int M" by linarith
    then show ?thesis using Npos by (simp add: fq pos_less_divide_eq)
  qed
  have c4: "float64 q < of_int k" if "q < of_int k"
  proof -
    have "real_of_int a < of_int k * of_int b" using that bpos by (simp add: q_def pos_divide_less_eq)
    then have "a < k * b" by (metis of_int_less_iff of_int_mult)
    then have "a + 1 \<le> k * b" by simp
    then have "real_of_int a + 1 \<le> of_int k * of_int b" by (metis of_int_le_iff of_int_mult of_int_add of_int_1)
    then have "(real_of_int a + 1) / of_int b \<le> (of_int k * of_int b) / of_int b"
      using bpos by (intro divide_right_mono) simp_all
    moreover have "(real_of_int a + 1) / of_int b = q + 1 / of_int b"
      by (simp add: q_def add_divide_distrib)
    moreover have "(of_int k * real_of_int b) / of_int b = of_int k" using bpos by simp
    ultimately have 1: "q + 1 / of_int b \<le> of_int k" by simp
    have "(q + 1 / of_int b) * N \<le> of_int k * N" using 1 Npos by (intro mult_right_mono) simp_all
    moreover have "(q + 1 / of_int b) * N = q * N + t"
      by (simp add: t_def algebra_simps)
    ultimately have "q * N < of_int k * N - 1 / 2" using thalf by linarith
    then have "q * N < of_int (k * 2 ^ n) - 1 / 2" by (simp add: N_def)
    then have "M \<le> k * 2 ^ n - 1" unfolding M_def by (rule rhe_lt)
    then have "of_int M \<le> of_int k * N - 1" unfolding Nint
      by (metis of_int_le_iff of_int_mult of_int_diff of_int_1)
    then have "of_int M < of_int k * N" by linarith
    then show ?thesis using Npos by (simp add: fq pos_divide_less_eq)
  qed
  show ?thesis using c1 c2 c3 c4 unfolding q_def by blast
qed


lemma float64_quot_ceiling:
  fixes a b :: int
  assumes "0 < a" "a < 2 ^ 53" "0 < b" "b < 2 ^ 53"
  shows "\<lceil>float64 (of_int a / of_int b)\<rceil> = \<lceil>real_of_int a / of_int b\<rceil>"
proof (rule ceiling_unique)
  let ?z = "\<lceil>real_of_int a / of_int b\<rceil>"
  have "of_int (?z - 1) < real_of_int a / of_int b" by linarith
  with float64_quot_between [OF assms, of "?z - 1"]
  show "of_int ?z - 1 < float64 (of_int a / of_int b)" by simp
  have "real_of_int a / of_int b \<le> of_int ?z" by linarith
  with float64_quot_between [OF assms, of ?z]
  show "float64 (of_int a / of_int b) \<le> of_int ?z" by simp
qed

lemma float64_quot_floor:
  fixes a b :: int
  assumes "0 < a" "a < 2 ^ 53" "0 < b" "b < 2 ^ 53"
  shows "\<lfloor>float64 (of_int a / of_int b)\<rfloor> = \<lfloor>real_of_int a / of_int b\<rfloor>"
proof (rule floor_unique)
  let ?z = "\<lfloor>real_of_int a / of_int b\<rfloor>"
  have "of_int ?z \<le> real_of_int a / of_int b" by linarith
  with float64_quot_between [OF assms, of ?z]
  show "of_int ?z \<le> float64 (of_int a / of_int b)" by simp
  have "real_of_int a / of_int b < of_int (?z + 1)" by linarith
  with float64_quot_between [OF assms, of "?z + 1"]
  show "float64 (of_int a / of_int b) < of_int ?z + 1" by simp
qed

lemma float64_minus: "float64 (- x) = - float64 x"
  by (simp add: float64_def ulp_def)

lemma float64_of_int_pos:
  fixes n :: int
  assumes "0 < n" "n < 2 ^ 53"
  shows "float64 (of_int n) = of_int n"
proof -
  have "(of_int n \<le> real_of_int n / of_int 1 \<longrightarrow> of_int n \<le> float64 (of_int n / of_int 1))
      \<and> (real_of_int n / of_int 1 \<le> of_int n \<longrightarrow> float64 (of_int n / of_int 1) \<le> of_int n)"
    using float64_quot_between [OF assms, of 1 n] by simp
  then show ?thesis by simp
qed

lemma float64_of_int:
  fixes n :: int
  assumes "\<bar>n\<bar> < 2 ^ 53"
  shows "float64 (of_int n) = of_int n"
proof -
  consider "0 < n" | "n = 0" | "n < 0" by linarith
  then show ?thesis
  proof cases
    case 1
    with assms show ?thesis by (simp add: float64_of_int_pos)
  next
    case 2
    then show ?thesis by (simp add: float64_def)
  next
    case 3
    with assms have "float64 (of_int (- n)) = of_int (- n)" by (intro float64_of_int_pos) simp_all
    then show ?thesis using float64_minus [of "of_int n"] by simp
  qed
qed

lemma float64_quotient_ceiling:
  fixes a b :: int
  assumes a: "\<bar>a\<bar> < 2 ^ 53" and b: "0 < b" "b < 2 ^ 53"
  shows "\<lceil>float64 (float64 (of_int a) / float64 (of_int b))\<rceil> = \<lceil>real_of_int a / of_int b\<rceil>"
proof -
  have fa: "float64 (of_int a) = of_int a" using a by (rule float64_of_int)
  have fb: "float64 (of_int b) = of_int b" using b by (intro float64_of_int) simp
  consider "0 < a" | "a = 0" | "a < 0" by linarith
  then have "\<lceil>float64 (real_of_int a / of_int b)\<rceil> = \<lceil>real_of_int a / of_int b\<rceil>"
  proof cases
    case 1
    with a b show ?thesis by (intro float64_quot_ceiling) simp_all
  next
    case 2
    then show ?thesis by (simp add: float64_def)
  next
    case 3
    with a b have "\<lfloor>float64 (of_int (- a) / of_int b)\<rfloor> = \<lfloor>real_of_int (- a) / of_int b\<rfloor>"
      by (intro float64_quot_floor) simp_all
    moreover have "float64 (real_of_int a / of_int b) = - float64 (of_int (- a) / of_int b)"
      using float64_minus [of "of_int (- a) / of_int b"] by simp
    ultimately show ?thesis by (simp add: ceiling_def)
  qed
  then show ?thesis by (simp add: fa fb)
qed

text \<open>
  For operands below \<open>2 ^ 53\<close> in magnitude the computed page count is the ceiling of the
  quotient.
\<close>

lemma ceilQuotient_exact:
  fixes a b :: int
  assumes a: "\<bar>a\<bar> < 2 ^ 53" and b: "0 < b" "b < 2 ^ 53"
  shows "ceilQuotient a b = Some \<lceil>real_of_int a / of_int b\<rceil>"
proof -
  let ?z = "\<lceil>real_of_int a / of_int b\<rceil>"
  have "\<bar>real_of_int a / of_int b\<bar> \<le> \<bar>real_of_int a\<bar>"
    using b by (simp add: divide_le_eq mult_le_cancel_left1)
  moreover have "\<bar>real_of_int a\<bar> < 2 ^ 53"
    using a of_int_less_iff [of "\<bar>a\<bar>" "2 ^ 53", where ?'a = real] by simp
  ultimately have "\<bar>real_of_int a / of_int b\<bar> < 2 ^ 53" by linarith
  then have "- (2 ^ 53) < real_of_int a / of_int b" "real_of_int a / of_int b < 2 ^ 53"
    by linarith+
  then have "- (2 ^ 53) \<le> ?z" "?z \<le> 2 ^ 53"
    by (simp_all add: le_ceiling_iff ceiling_le_iff)
  then have "- (2 ^ 53) \<le> real_of_int ?z" "real_of_int ?z \<le> 2 ^ 53"
    using of_int_le_iff [of ?z "2 ^ 53", where ?'a = real]
      of_int_le_iff [of "- (2 ^ 53)" ?z, where ?'a = real] by simp_all
  moreover have "(2::real) ^ 53 < 2 ^ 63" by simp
  ultimately have "- (2 ^ 63) \<le> real_of_int ?z" "real_of_int ?z < 2 ^ 63"
    by linarith+
  then show ?thesis
    unfolding ceilQuotient_def float64_quotient_ceiling [OF assms] intOfFloat_def
    by simp
qed

lemma ceilQuotient_101_20: "ceilQuotient 101 20 = Some 6"
  using ceilQuotient_exact [of 101 20] by (simp add: ceiling_divide_eq_div)


text \<open>
  Above \<open>2 ^ 53\<close> it is not: \<open>2 ^ 53 + 1\<close> is no \<^verbatim>\<open>float64\<close>, the conversion gives \<open>2 ^ 53\<close>, and
  that is the count computed for \<open>2 ^ 53 + 1\<close> results at one result per page.
\<close>

lemma float64_in_binade:
  assumes "2 powr of_int e \<le> x" "x < 2 powr of_int (e + 1)"
  shows "float64 x = of_int (roundHalfEven (x / 2 powr of_int (e - 52))) * 2 powr of_int (e - 52)"
proof -
  have pos: "0 < x" using assms(1) by (smt (verit) powr_gt_zero)
  then have "\<lfloor>log 2 x\<rfloor> = e"
    using assms floor_log_eq_powr_iff [of x 2 e] by simp
  with pos show ?thesis by (simp add: float64_def ulp_def)
qed

lemma float64_2_53_plus_1: "float64 (2 ^ 53 + 1) = 2 ^ 53"
proof -
  have p: "(2::real) powr of_int 53 = 2 ^ 53" "(2::real) powr of_int (53 + 1) = 2 ^ 54"
    "(2::real) powr of_int (53 - 52) = 2"
    using powr_realpow [of "2::real" 53] powr_realpow [of "2::real" 54] by simp_all
  have "float64 (2 ^ 53 + 1) =
      of_int (roundHalfEven ((2 ^ 53 + 1) / 2 powr of_int (53 - 52))) * 2 powr of_int (53 - 52)"
    by (rule float64_in_binade) (simp_all only: p, simp_all)
  moreover have "roundHalfEven ((2 ^ 53 + 1) / 2) = 2 ^ 52"
  proof -
    have "((2::real) ^ 53 + 1) / 2 = of_int (2 ^ 52) + 1 / 2" by simp
    moreover have "\<lfloor>real_of_int (2 ^ 52) + 1 / 2\<rfloor> = 2 ^ 52" by (rule floor_unique) simp_all
    ultimately show ?thesis by (simp add: roundHalfEven_def Let_def)
  qed
  ultimately show ?thesis by (simp only: p) simp
qed

lemma float64_2_53: "float64 (2 ^ 53) = 2 ^ 53"
proof -
  have p: "(2::real) powr of_int 53 = 2 ^ 53" "(2::real) powr of_int (53 + 1) = 2 ^ 54"
    "(2::real) powr of_int (53 - 52) = 2"
    using powr_realpow [of "2::real" 53] powr_realpow [of "2::real" 54] by simp_all
  have "float64 (2 ^ 53) =
      of_int (roundHalfEven (2 ^ 53 / 2 powr of_int (53 - 52))) * 2 powr of_int (53 - 52)"
    by (rule float64_in_binade) (simp_all only: p, simp_all)
  moreover have "roundHalfEven (2 ^ 53 / 2) = 2 ^ 52"
    using rhe_int [of "2 ^ 52"] by simp
  ultimately show ?thesis by (simp only: p) simp
qed

lemma ceilQuotient_above_2_53: "ceilQuotient (2 ^ 53 + 1) 1 = Some (2 ^ 53)"
proof -
  have a: "real_of_int (2 ^ 53 + 1) = 2 ^ 53 + 1" by simp
  have fa: "float64 (real_of_int (2 ^ 53 + 1)) = 2 ^ 53"
    unfolding a by (rule float64_2_53_plus_1)
  have fb: "float64 (real_of_int 1) = 1"
    using float64_of_int [of 1] by simp
  have q: "float64 (float64 (real_of_int (2 ^ 53 + 1)) / float64 (real_of_int 1)) = 2 ^ 53"
    unfolding fa fb by (simp only: div_by_1 float64_2_53)
  have c: "\<lceil>(2::real) ^ 53\<rceil> = 2 ^ 53" by (rule ceiling_unique) simp_all
  have i: "intOfFloat (real_of_int (2 ^ 53)) = Some (2 ^ 53)"
    by (simp add: intOfFloat_def)
  show ?thesis
    unfolding ceilQuotient_def q c by (rule i)
qed

subsection \<open>The page counts\<close>

lemma wrap64_id: "- (2 ^ 63) \<le> n \<Longrightarrow> n < 2 ^ 63 \<Longrightarrow> wrap64 n = n"
  by (simp add: wrap64_def)

lemma wrap64_small: "\<bar>n\<bar> < 2 ^ 53 \<Longrightarrow> wrap64 n = n"
  by (rule wrap64_id) simp_all

text \<open>
  C5 (as amended). When the page's \<^verbatim>\<open>TotalResults\<close>, the filter's \<^verbatim>\<open>Limit\<close>, the page's
  \<^verbatim>\<open>Limit\<close> and the filter's \<^verbatim>\<open>Offset\<close> plus one are all below \<open>2 ^ 53\<close> in magnitude,
  \<^verbatim>\<open>PopulateRecordSetPageDetails\<close> returns a RecordSet whose \<^verbatim>\<open>ResultCount\<close> is the page's
  \<^verbatim>\<open>TotalResults\<close>. Its \<^verbatim>\<open>TotalPages\<close> is the page's own \<^verbatim>\<open>TotalPages\<close> when that is positive;
  when it is not, and the result count is not negative and the filter's \<^verbatim>\<open>Limit\<close> is
  positive, it is \<open>ceil (ResultCount / Limit)\<close> of the filter's \<^verbatim>\<open>Limit\<close>; otherwise it is left
  as it was. Its \<^verbatim>\<open>Page\<close> is \<open>ceil ((Offset + 1) / Limit)\<close> of the filter's \<^verbatim>\<open>Offset\<close> and the
  page's \<^verbatim>\<open>Limit\<close> when that limit is positive, and left as it was when it is not.
\<close>

theorem PopulateRecordSetPageDetails_pages:
  assumes total: "\<bar>TotalResults page\<bar> < 2 ^ 53"
    and flimit: "Filter_Limit f < 2 ^ 53"
    and plimit: "IndexPage_Limit page < 2 ^ 53"
    and offset: "\<bar>Filter_Offset f + 1\<bar> < 2 ^ 53"
  shows "\<exists>r. PopulateRecordSetPageDetails recordset f page = Some r
     \<and> ResultCount r = TotalResults page
     \<and> (IndexPage_TotalPages page > 0 \<longrightarrow> RecordSet_TotalPages r = IndexPage_TotalPages page)
     \<and> (IndexPage_TotalPages page \<le> 0 \<and> TotalResults page \<ge> 0 \<and> Filter_Limit f > 0 \<longrightarrow>
          RecordSet_TotalPages r =
            \<lceil>real_of_int (TotalResults page) / real_of_int (Filter_Limit f)\<rceil>)
     \<and> (IndexPage_TotalPages page \<le> 0 \<and> \<not> (TotalResults page \<ge> 0 \<and> Filter_Limit f > 0) \<longrightarrow>
          RecordSet_TotalPages r = RecordSet_TotalPages recordset)
     \<and> (IndexPage_Limit page > 0 \<longrightarrow>
          RecordSet_Page r =
            \<lceil>real_of_int (Filter_Offset f + 1) / real_of_int (IndexPage_Limit page)\<rceil>)
     \<and> (IndexPage_Limit page \<le> 0 \<longrightarrow> RecordSet_Page r = RecordSet_Page recordset)"
proof -
  have pages: "ceilQuotient (TotalResults page) (Filter_Limit f) =
      Some \<lceil>real_of_int (TotalResults page) / real_of_int (Filter_Limit f)\<rceil>"
    if "Filter_Limit f > 0"
    using total that flimit by (rule ceilQuotient_exact)
  have w: "wrap64 (Filter_Offset f + 1) = Filter_Offset f + 1"
    using offset by (rule wrap64_small)
  have page: "ceilQuotient (wrap64 (Filter_Offset f + 1)) (IndexPage_Limit page) =
      Some \<lceil>real_of_int (Filter_Offset f + 1) / real_of_int (IndexPage_Limit page)\<rceil>"
    if "IndexPage_Limit page > 0"
    unfolding w using offset that plimit by (rule ceilQuotient_exact)
  show ?thesis
    by (auto simp: PopulateRecordSetPageDetails_def Let_def pages page)
qed

text \<open>The spec's figures: 101 results, limit 20, offset 40, no total reported by the page.\<close>

theorem PopulateRecordSetPageDetails_witness:
  "\<exists>r. PopulateRecordSetPageDetails (exRecordSet []) exFilter (exPage 0) = Some r
     \<and> RecordSet_TotalPages r = 6 \<and> RecordSet_Page r = 3"
  using PopulateRecordSetPageDetails_pages [of "exPage 0" exFilter "exRecordSet []"]
  by (auto simp: exPage_def exFilter_def zeroFilter_def ceiling_divide_eq_div)

text \<open>
  C5 as stated fails when the page reports a positive \<^verbatim>\<open>TotalPages\<close> of its own: with 101
  results and every page size at 20, the reported 2 is kept, and the ceiling is 6.
\<close>

theorem PopulateRecordSetPageDetails_counterexample:
  "map_option (\<lambda>r. (RecordSet_TotalPages r, ResultCount r, RecordsPerPage r))
     (PopulateRecordSetPageDetails (exRecordSet []) exFilter (exPage 2)) = Some (2, 101, 20)
   \<and> Filter_Limit exFilter = 20
   \<and> \<lceil>(101::real) / 20\<rceil> = 6"
proof -
  have "ceilQuotient 41 20 = Some 3"
    using ceilQuotient_exact [of 41 20] by (simp add: ceiling_divide_eq_div)
  then show ?thesis
    by (simp add: PopulateRecordSetPageDetails_def Let_def exPage_def exFilter_def zeroFilter_def
        exRecordSet_def wrap64_def ceiling_divide_eq_div)
qed

section \<open>Concrete runs: evaluated pieces\<close>

lemma ex_getUsers: "getCollectionFromCache exBackend ''users'' = Inr exUsers"
  by (simp add: getCollectionFromCache_def exBackend_def)

lemma ex_makeQueryGen:
  "makeQueryGen exCollab exBackend (Some exUsers) =
     \<lparr>Sql_Type = SqlSelectStatement, InputData = [], NormalizeFields = [''name''], TypeMapping = [],
      PlaceholderFormat = ''?'', PlaceholderArgument = [], TableNameFormat = ''%s'',
      FieldNameFormat = ''%s'', NormalizerFormat = ''%s''\<rparr>"
  by (simp add: makeQueryGen_def Let_def exCollab_def exBackend_def exUsers_def AddFields_def
      NewCollection_def exField_def)

lemma ex_convert_simps:
  "ConvertValue (fieldConvert exCollab) exUsers ''name'' (VStr s) = Inr (VStr s)"
  "ConvertValue (fieldConvert exCollab) exUsers ''age'' (VStr s) = Inl (External ''cannot convert value'')"
  "ConvertValue (fieldConvert exCollab) exUsers ''id'' (VInt n) = Inr (VInt n)"
  "ConvertValue (fieldConvert exCollab) exUsers ''bogus'' v = Inl (Errorf (unknownFieldMessage ''bogus''))"
  by (simp_all add: ConvertValue_def GetField_def exCollab_def exUsers_def AddFields_def
      NewCollection_def exField_def exConvert_def typeOf_def)

lemma ex_users_simps:
  "IdentityField exUsers = ''id''" "Collection_Name exUsers = ''users''"
  by (simp_all add: exUsers_def AddFields_def NewCollection_def DefaultIdentityField_def)

lemma ex_collab_simps:
  "Render exCollab = exRender" "Null exCollab = zeroFilter" "FromMap exCollab = exFromMap"
  "Parse exCollab = exParse" "MakeFilter exCollab = zeroFilter"
  "Initialize exCollab = (\<lambda>g name. Inr g)" "Sprintf exCollab = exSprintf"
  by (simp_all add: exCollab_def)

lemma ex_driver_simps:
  "Begin exDriver s = None" "Commit exDriver s = None"
  "Exec exDriver stmt values s =
     (if stmt = [] then Inl (External ''empty statement'')
      else Inr (s\<lparr>applied := applied s @ [(stmt, values)]\<rparr>))"
  by (simp_all add: exDriver_def)

lemma ex_backend_simps:
  "connBackend exBackend = ''sqlite''" "calls exBackend = []" "indexer exBackend = None"
  "applied (db exBackend) = []"
  by (simp_all add: exBackend_def)

lemma ex_withRow_simps:
  "getCollectionFromCache exWithRow ''users'' = Inr exUsers"
  "getCollectionFromCache exWithRow ''ghost'' = Inl CollectionNotFound"
  "makeQueryGen exCollab exWithRow (Some exUsers) = makeQueryGen exCollab exBackend (Some exUsers)"
  "Query exDriver stmt [VInt 7] (db exWithRow) = Inr [[VStr ''a'', VInt 7]]"
  "Query exDriver stmt [VInt 8] (db exWithRow) = Inr []"
  by (simp_all add: getCollectionFromCache_def exWithRow_def exBackend_def makeQueryGen_def
      exDriver_def)

lemma ex_gen:
  "makeQueryGen exCollab exBackend (Some ((exDefinition t)\<lparr>IdentityField := DefaultIdentityField\<rparr>)) =
     \<lparr>Sql_Type = SqlSelectStatement, InputData = [], NormalizeFields = [''name'', ''code''],
      TypeMapping = [],
      PlaceholderFormat = ''?'', PlaceholderArgument = [], TableNameFormat = ''%s'',
      FieldNameFormat = ''%s'', NormalizerFormat = ''%s''\<rparr>"
  by (simp add: makeQueryGen_def Let_def exCollab_def exBackend_def exDefinition_def exField_def)

section \<open>Properties of Insert\<close>

lemma Insert_records_stop:
  "Insert_records drv cb self c pre st0 = (None, st1) \<Longrightarrow>
   Insert_record drv cb self c r st1 = (Some err, st2) \<Longrightarrow>
   Insert_records drv cb self c (pre @ r # post) st0 = (Some err, st2)"
proof (induction pre arbitrary: st0)
  case Nil
  then show ?case by simp
next
  case (Cons a pre)
  then show ?case
    by (cases "Insert_record drv cb self c a st0") (auto split: option.splits)
qed

text \<open>What makes a record fail: a field conversion, the identity conversion, rendering, or execution.\<close>

lemma Insert_record_failure_causes:
  "Insert_record drv cb self c r st = (Some err, st') \<longleftrightarrow>
     (Insert_fields cb c (Record_Fields r)
        ((makeQueryGen cb self (Some c))\<lparr>Sql_Type := SqlInsertStatement\<rparr>) = Inl err \<and> st' = st)
   \<or> (\<exists>g1. Insert_fields cb c (Record_Fields r)
              ((makeQueryGen cb self (Some c))\<lparr>Sql_Type := SqlInsertStatement\<rparr>) = Inr g1 \<and>
            Insert_identity cb c r g1 = Inl err \<and> st' = st)
   \<or> (\<exists>g1 g2. Insert_fields cb c (Record_Fields r)
              ((makeQueryGen cb self (Some c))\<lparr>Sql_Type := SqlInsertStatement\<rparr>) = Inr g1 \<and>
            Insert_identity cb c r g1 = Inr g2 \<and>
            Render cb g2 (Collection_Name c) (Null cb) = Inl err \<and> st' = st)
   \<or> (\<exists>g1 g2 stmt values. Insert_fields cb c (Record_Fields r)
              ((makeQueryGen cb self (Some c))\<lparr>Sql_Type := SqlInsertStatement\<rparr>) = Inr g1 \<and>
            Insert_identity cb c r g1 = Inr g2 \<and>
            Render cb g2 (Collection_Name c) (Null cb) = Inr (stmt, values) \<and>
            Exec drv stmt values (fst st) = Inl err \<and>
            st' = (fst st, snd st @ [CallExec stmt values]))"
  by (auto simp: Insert_record_def Let_def split: sum.splits prod.splits)

lemma Insert_record_calls:
  "Insert_record drv cb self c r st = (e, st') \<Longrightarrow>
   \<exists>xs. snd st' = snd st @ xs \<and> list_all isExec xs"
  by (auto simp: Insert_record_def Let_def isExec_def split: sum.splits prod.splits)

lemma Insert_records_calls:
  "Insert_records drv cb self c rs st = (e, st') \<Longrightarrow>
   \<exists>xs. snd st' = snd st @ xs \<and> list_all isExec xs"
proof (induction rs arbitrary: st)
  case Nil
  then show ?case by auto
next
  case (Cons r rs)
  obtain e1 st1 where r1: "Insert_record drv cb self c r st = (e1, st1)"
    by (cases "Insert_record drv cb self c r st") auto
  from Insert_record_calls [OF r1] obtain xs where xs: "snd st1 = snd st @ xs" "list_all isExec xs"
    by blast
  show ?case
  proof (cases e1)
    case None
    with Cons.prems r1 have "Insert_records drv cb self c rs st1 = (e, st')" by simp
    from Cons.IH [OF this] obtain ys where "snd st' = snd st1 @ ys" "list_all isExec ys" by blast
    with xs have "snd st' = snd st @ (xs @ ys) \<and> list_all isExec (xs @ ys)" by simp
    then show ?thesis by blast
  next
    case (Some a)
    with Cons.prems r1 have "st' = st1" by simp
    with xs show ?thesis by blast
  qed
qed

lemma Insert_mode_calls:
  "Insert_mode drv self st = (e, st') \<Longrightarrow> \<exists>xs. snd st' = snd st @ xs \<and> list_all isExec xs"
  by (auto simp: Insert_mode_def isExec_def split: if_splits sum.splits)

text \<open>
  \<^verbatim>\<open>Insert\<close> places converted values only: when the field loop succeeds, the input data is
  the generator's, updated key by key with the results of \<^verbatim>\<open>ConvertValue\<close>; when a conversion
  fails, the record's pass ends with that error and no call.
\<close>

lemma Insert_fields_converted:
  "Insert_fields cb c kvs g = Inr g' \<Longrightarrow>
   \<exists>cvs. map fst cvs = map fst kvs \<and>
     (\<forall>i < length kvs. ConvertValue (fieldConvert cb) c (fst (kvs ! i)) (snd (kvs ! i)) =
                         Inr (snd (cvs ! i))) \<and>
     InputData g' = fold (\<lambda>kv. AList.update (fst kv) (snd kv)) cvs (InputData g)"
proof (induction kvs arbitrary: g)
  case Nil
  then show ?case by simp
next
  case (Cons kv kvs)
  obtain k v where kv: "kv = (k, v)" by (cases kv)
  from Cons.prems kv obtain cV where cV: "ConvertValue (fieldConvert cb) c k v = Inr cV"
    and rest: "Insert_fields cb c kvs (g\<lparr>InputData := AList.update k cV (InputData g)\<rparr>) = Inr g'"
    by (auto split: sum.splits)
  from Cons.IH [OF rest] obtain cvs where cvs: "map fst cvs = map fst kvs"
    "\<forall>i < length kvs. ConvertValue (fieldConvert cb) c (fst (kvs ! i)) (snd (kvs ! i)) =
                        Inr (snd (cvs ! i))"
    "InputData g' = fold (\<lambda>kv. AList.update (fst kv) (snd kv)) cvs (AList.update k cV (InputData g))"
    by auto
  have "map fst ((k, cV) # cvs) = map fst (kv # kvs)" using cvs kv by simp
  moreover have "\<forall>i < length (kv # kvs).
      ConvertValue (fieldConvert cb) c (fst ((kv # kvs) ! i)) (snd ((kv # kvs) ! i)) =
        Inr (snd (((k, cV) # cvs) ! i))"
    using cvs(2) cV kv by (auto simp: nth_Cons split: nat.splits)
  moreover have "InputData g' =
      fold (\<lambda>kv. AList.update (fst kv) (snd kv)) ((k, cV) # cvs) (InputData g)"
    using cvs(3) by simp
  ultimately show ?case by blast
qed

lemma Insert_record_conversion_failure:
  "Insert_fields cb c (Record_Fields r)
     ((makeQueryGen cb self (Some c))\<lparr>Sql_Type := SqlInsertStatement\<rparr>) = Inl err \<Longrightarrow>
   Insert_record drv cb self c r st = (Some err, st)"
  by (simp add: Insert_record_def)

text \<open>
  C2. An \<^verbatim>\<open>Insert\<close> on a cached collection opens one transaction for the batch. When the
  records before \<open>r\<close> go through and \<open>r\<close> fails (in conversion, rendering or execution) with
  \<open>err\<close>, \<^verbatim>\<open>Insert\<close> returns \<open>err\<close>, the store is the one before the call, and the calls made
  are one \<^verbatim>\<open>Begin\<close>, statement executions, and the rollback.
\<close>

theorem Insert_batch_atomic:
  assumes cached: "getCollectionFromCache self name = Inr c"
    and begun: "Begin drv (db self) = None"
    and mode: "Insert_mode drv self (db self, calls self @ [CallBegin]) = (None, st0)"
    and batch: "Records recordset = pre @ r # post"
    and before: "Insert_records drv cb self c pre st0 = (None, st1)"
    and fails: "Insert_record drv cb self c r st1 = (Some err, st2)"
  shows "Insert drv cb self name recordset = (Some err, self\<lparr>calls := snd st2 @ [CallRollback]\<rparr>)
    \<and> db (snd (Insert drv cb self name recordset)) = db self
    \<and> (\<exists>xs. calls (snd (Insert drv cb self name recordset)) =
               calls self @ [CallBegin] @ xs @ [CallRollback] \<and> list_all isExec xs)"
proof -
  have loop: "Insert_records drv cb self c (Records recordset) st0 = (Some err, st2)"
    using Insert_records_stop [OF before fails] batch by simp
  have res: "Insert drv cb self name recordset =
      (Some err, self\<lparr>calls := snd st2 @ [CallRollback]\<rparr>)"
    using cached begun mode loop by (simp add: Insert_def)
  from Insert_mode_calls [OF mode] obtain xs
    where xs: "snd st0 = calls self @ [CallBegin] @ xs" "list_all isExec xs"
    by auto
  from Insert_records_calls [OF loop] obtain ys
    where ys: "snd st2 = snd st0 @ ys" "list_all isExec ys"
    by blast
  have "snd st2 @ [CallRollback] = calls self @ [CallBegin] @ (xs @ ys) @ [CallRollback]
      \<and> list_all isExec (xs @ ys)"
    using xs ys by simp
  then have "\<exists>zs. snd st2 @ [CallRollback] = calls self @ [CallBegin] @ zs @ [CallRollback]
      \<and> list_all isExec zs"
    by blast
  with res show ?thesis by simp
qed

text \<open>The spec's batch: three records, the second fails conversion, none is in the store.\<close>

theorem Insert_batch_atomic_witness:
  "fst (Insert exDriver exCollab exBackend ''users'' exBatch) = Some (External ''cannot convert value'')
   \<and> applied (db (snd (Insert exDriver exCollab exBackend ''users'' exBatch))) = []
   \<and> calls (snd (Insert exDriver exCollab exBackend ''users'' exBatch)) =
       [CallBegin, CallExec ''INSERT users'' [VStr ''a''], CallRollback]"
proof -
  let ?st0 = "(db exBackend, [CallBegin])"
  let ?st1 = "(db exBackend\<lparr>applied := [(''INSERT users'', [VStr ''a''])]\<rparr>,
               [CallBegin, CallExec ''INSERT users'' [VStr ''a'']])"
  have mode: "Insert_mode exDriver exBackend (db exBackend, calls exBackend @ [CallBegin]) =
      (None, ?st0)"
    by (simp add: Insert_mode_def ex_backend_simps)
  have batch: "Records exBatch =
      [exRecord (VStr []) [(''name'', VStr ''a'')]] @ exRecord (VStr []) [(''age'', VStr ''x'')]
        # [exRecord (VStr []) [(''name'', VStr ''c'')]]"
    by (simp add: exBatch_def exRecordSet_def)
  have before: "Insert_records exDriver exCollab exBackend exUsers
      [exRecord (VStr []) [(''name'', VStr ''a'')]] ?st0 = (None, ?st1)"
    by (simp add: Insert_record_def Insert_identity_def ex_makeQueryGen ex_convert_simps
        ex_users_simps ex_collab_simps ex_driver_simps ex_backend_simps exRecord_def exRender_def
        exKeyword_def zeroFilter_def)
  have fails: "Insert_record exDriver exCollab exBackend exUsers
      (exRecord (VStr []) [(''age'', VStr ''x'')]) ?st1 =
        (Some (External ''cannot convert value''), ?st1)"
    by (simp add: Insert_record_def ex_makeQueryGen ex_convert_simps exRecord_def)
  show ?thesis
    using Insert_batch_atomic [OF ex_getUsers ex_driver_simps(1) mode batch before fails]
    by (simp add: ex_backend_simps)
qed

section \<open>Properties of Update\<close>

text \<open>\<^verbatim>\<open>Update\<close> places the record's values as they come, the identity field's left out.\<close>

lemma Update_fields_raw:
  "InputData (Update_fields c kvs g) =
     fold (\<lambda>kv. AList.update (fst kv) (snd kv))
       (filter (\<lambda>kv. fst kv \<noteq> IdentityField c) kvs) (InputData g)"
  by (induction kvs arbitrary: g) auto

text \<open>
  C1. The claim has every insert and every update coerce each supplied value through the
  Collection's \<^verbatim>\<open>ConvertValue\<close> and abort on a conversion failure before a statement for
  that record is issued. \<^verbatim>\<open>Insert\<close> does (\<open>Insert_fields_converted\<close>,
  \<open>Insert_record_conversion_failure\<close>). \<^verbatim>\<open>Update\<close> does not: for a record with ID 1 and a
  field \<^verbatim>\<open>bogus\<close> that the collection does not declare, \<^verbatim>\<open>ConvertValue\<close> fails with "Unknown
  field", yet the update statement is executed with the raw value, committed, and no error
  is returned.
\<close>

theorem Update_skips_ConvertValue:
  "ConvertValue (fieldConvert exCollab) exUsers ''bogus'' (VBool True) =
     Inl (Errorf (unknownFieldMessage ''bogus''))
   \<and> fst (Update exDriver exCollab exBackend ''users''
            (exRecordSet [exRecord (VInt 1) [(''bogus'', VBool True)]]) []) = None
   \<and> calls (snd (Update exDriver exCollab exBackend ''users''
            (exRecordSet [exRecord (VInt 1) [(''bogus'', VBool True)]]) [])) =
       [CallBegin, CallExec ''UPDATE users'' [VBool True, VInt 1], CallCommit]
   \<and> applied (db (snd (Update exDriver exCollab exBackend ''users''
            (exRecordSet [exRecord (VInt 1) [(''bogus'', VBool True)]]) []))) =
       [(''UPDATE users'', [VBool True, VInt 1])]"
  by (simp add: Update_def Update_target_def Update_record_def Update_filter_def commitAndIndex_def
      ex_getUsers ex_makeQueryGen ex_convert_simps ex_users_simps ex_collab_simps ex_driver_simps
      ex_backend_simps exRecord_def exRecordSet_def exRender_def exFromMap_def exKeyword_def
      zeroFilter_def)

lemma Update_records_stop:
  "Update_records drv cb self c target tf pre st0 = (None, st1) \<Longrightarrow>
   Update_record drv cb self c target tf r st1 = (Some err, st2) \<Longrightarrow>
   Update_records drv cb self c target tf (pre @ r # post) st0 = (Some err, st2)"
proof (induction pre arbitrary: st0)
  case Nil
  then show ?case by simp
next
  case (Cons a pre)
  then show ?case
    by (cases "Update_record drv cb self c target tf a st0") (auto split: option.splits)
qed

text \<open>
  A record whose ID is the empty string, in a call with no target filter: when the records
  before it go through, the call returns the "must target at least one record" error and
  rolls back, and the store is the one before the call. When it is the first record, no
  statement is executed.
\<close>

lemma Update_empty_ID_must_target:
  assumes cached: "getCollectionFromCache self name = Inr c"
    and begun: "Begin drv (db self) = None"
    and batch: "Records recordset = pre @ r # post"
    and noid: "ID r = VStr []"
    and before: "Update_records drv cb self c [] zeroFilter pre (db self, calls self @ [CallBegin]) =
                   (None, st1)"
  shows "Update drv cb self name recordset [] =
           (Some mustTarget, self\<lparr>calls := snd st1 @ [CallRollback]\<rparr>)
    \<and> db (snd (Update drv cb self name recordset [])) = db self
    \<and> (pre = [] \<longrightarrow> calls (snd (Update drv cb self name recordset [])) =
                       calls self @ [CallBegin, CallRollback])"
proof -
  have "Update_record drv cb self c [] zeroFilter r st1 = (Some mustTarget, st1)"
    using noid by (simp add: Update_record_def Update_filter_def)
  from Update_records_stop [OF before this]
  have loop: "Update_records drv cb self c [] zeroFilter (Records recordset)
                (db self, calls self @ [CallBegin]) = (Some mustTarget, st1)"
    using batch by simp
  have res: "Update drv cb self name recordset [] =
           (Some mustTarget, self\<lparr>calls := snd st1 @ [CallRollback]\<rparr>)"
    using cached begun loop by (simp add: Update_def Update_target_def)
  moreover have "pre = [] \<longrightarrow> snd st1 = calls self @ [CallBegin]"
    using before by auto
  ultimately show ?thesis by simp
qed

lemma Update_empty_ID_run:
  "fst (Update exDriver exCollab exBackend ''users''
          (exRecordSet [exRecord (VStr []) [(''name'', VStr ''b'')]]) []) = Some mustTarget
   \<and> applied (db (snd (Update exDriver exCollab exBackend ''users''
          (exRecordSet [exRecord (VStr []) [(''name'', VStr ''b'')]]) []))) = []
   \<and> calls (snd (Update exDriver exCollab exBackend ''users''
          (exRecordSet [exRecord (VStr []) [(''name'', VStr ''b'')]]) [])) =
       [CallBegin, CallRollback]"
proof -
  have batch: "Records (exRecordSet [exRecord (VStr []) [(''name'', VStr ''b'')]]) =
      [] @ exRecord (VStr []) [(''name'', VStr ''b'')] # []"
    by (simp add: exRecordSet_def)
  have noid: "ID (exRecord (VStr []) [(''name'', VStr ''b'')]) = VStr []"
    by (simp add: exRecord_def)
  have before: "Update_records exDriver exCollab exBackend exUsers [] zeroFilter []
      (db exBackend, calls exBackend @ [CallBegin]) =
        (None, (db exBackend, calls exBackend @ [CallBegin]))"
    by simp
  show ?thesis
    using Update_empty_ID_must_target [OF ex_getUsers ex_driver_simps(1) batch noid before]
    by (simp add: ex_backend_simps)
qed

text \<open>
  In a batch whose first record has an ID and whose second has the empty string, the first
  record's statement is executed in the transaction before the error is met.
\<close>

lemma Update_batch_earlier_statement:
  "fst (Update exDriver exCollab exBackend ''users''
          (exRecordSet [exRecord (VInt 1) [(''name'', VStr ''b'')],
                        exRecord (VStr []) [(''name'', VStr ''c'')]]) []) = Some mustTarget
   \<and> calls (snd (Update exDriver exCollab exBackend ''users''
          (exRecordSet [exRecord (VInt 1) [(''name'', VStr ''b'')],
                        exRecord (VStr []) [(''name'', VStr ''c'')]]) [])) =
       [CallBegin, CallExec ''UPDATE users'' [VStr ''b'', VInt 1], CallRollback]"
  by (simp add: Update_def Update_target_def Update_record_def Update_filter_def
      ex_getUsers ex_makeQueryGen ex_users_simps ex_collab_simps ex_driver_simps
      ex_backend_simps exRecord_def exRecordSet_def exRender_def exFromMap_def exKeyword_def
      zeroFilter_def)

text \<open>
  A record without identity value has \<^verbatim>\<open>nil\<close> for its ID: that is what \<^verbatim>\<open>NewRecord(nil)\<close> makes
  and what \<^verbatim>\<open>MakeRecord\<close> tests for. The test in \<^verbatim>\<open>Update\<close> is \<^verbatim>\<open>record.ID == ""\<close>, which \<^verbatim>\<open>nil\<close>
  does not meet: whatever the target filter, the record's filter is then made from the
  identity field and \<^verbatim>\<open>nil\<close>, and the "must target" error does not come from this test.
\<close>

lemma Update_filter_nil_ID:
  "ID record = VNil \<Longrightarrow>
   Update_filter cb collection record target targetFilter =
     (case FromMap cb [(IdentityField collection, VNil)] of
        Inr f \<Rightarrow> Inr f
      | Inl err \<Rightarrow> Inl err)"
  by (simp add: Update_filter_def)

text \<open>
  C6. The claim has every \<^verbatim>\<open>Update\<close> with a record that lacks an identity value, and no
  target filter, return the "must target at least one record" error and execute no
  statement. The code does so for a record whose ID is the empty string
  (\<open>Update_empty_ID_must_target\<close>). It does not for a record whose ID is \<^verbatim>\<open>nil\<close>: the update
  statement is executed with \<^verbatim>\<open>nil\<close> as the identity to match, committed, and no error is
  returned.
\<close>

theorem Update_nil_ID_commits:
  "fst (Update exDriver exCollab exBackend ''users''
          (exRecordSet [exRecord VNil [(''name'', VStr ''b'')]]) []) = None
   \<and> calls (snd (Update exDriver exCollab exBackend ''users''
          (exRecordSet [exRecord VNil [(''name'', VStr ''b'')]]) [])) =
       [CallBegin, CallExec ''UPDATE users'' [VStr ''b'', VNil], CallCommit]
   \<and> applied (db (snd (Update exDriver exCollab exBackend ''users''
          (exRecordSet [exRecord VNil [(''name'', VStr ''b'')]]) []))) =
       [(''UPDATE users'', [VStr ''b'', VNil])]"
  by (simp add: Update_def Update_target_def Update_record_def Update_filter_def commitAndIndex_def
      ex_getUsers ex_makeQueryGen ex_users_simps ex_collab_simps ex_driver_simps
      ex_backend_simps exRecord_def exRecordSet_def exRender_def exFromMap_def exKeyword_def
      zeroFilter_def)

section \<open>Properties of Exists\<close>

text \<open>
  C7. \<^verbatim>\<open>Exists\<close> returns true exactly when the collection is cached, the transaction begins,
  the identity filter is built, the generator initializes, the statement renders, the query
  succeeds, and the query has a row. Any failure on the way gives false; no error is
  returned.
\<close>

theorem Exists_true_iff:
  "fst (Exists drv cb self name ident) \<longleftrightarrow>
     (\<exists>collection f0 queryGen1 stmt values rows.
        getCollectionFromCache self name = Inr collection \<and>
        Begin drv (db self) = None \<and>
        FromMap cb [(IdentityField collection, ident)] = Inr f0 \<and>
        Initialize cb (makeQueryGen cb self (Some collection)) (Collection_Name collection) =
          Inr queryGen1 \<and>
        Render cb queryGen1 (Collection_Name collection)
          (f0\<lparr>Filter_Fields := [IdentityField collection]\<rparr>) = Inr (stmt, values) \<and>
        Query drv stmt values (db self) = Inr rows \<and> rows \<noteq> [])"
  (is "?lhs \<longleftrightarrow> ?rhs")
proof
  assume ?lhs
  then show ?rhs
    by (auto simp: Exists_def Let_def split: sum.splits option.splits prod.splits)
next
  assume ?rhs
  then show ?lhs
    by (auto simp: Exists_def Let_def)
qed

theorem Exists_witness:
  "fst (Exists exDriver exCollab exWithRow ''users'' (VInt 7))
   \<and> \<not> fst (Exists exDriver exCollab exWithRow ''users'' (VInt 8))
   \<and> \<not> fst (Exists exDriver exCollab exWithRow ''ghost'' (VInt 7))"
  using Exists_true_iff [of exDriver exCollab exWithRow "''users''" "VInt 7"]
    Exists_true_iff [of exDriver exCollab exWithRow "''users''" "VInt 8"]
    Exists_true_iff [of exDriver exCollab exWithRow "''ghost''" "VInt 7"]
  by (simp add: ex_withRow_simps ex_makeQueryGen ex_driver_simps ex_collab_simps exFromMap_def
      exRender_def zeroFilter_def ex_users_simps)

section \<open>Properties of the schema cache\<close>

lemma refreshCollection_frame:
  "db (snd (refreshCollection self n)) = db self"
  "refreshCollectionFunc (snd (refreshCollection self n)) = refreshCollectionFunc self"
  "connDataset (snd (refreshCollection self n)) = connDataset self"
  "calls (snd (refreshCollection self n)) = calls self @ [CallTableDetails n]"
  by (simp_all add: refreshCollection_def called_def split: sum.splits)

lemma refreshAll_rows_known:
  "fst (refreshAll_rows rows known self) = known @ scannedNames rows"
  by (induction rows known self rule: refreshAll_rows.induct) simp_all

lemma refreshAll_rows_frame:
  "db (snd (refreshAll_rows rows known self)) = db self
   \<and> refreshCollectionFunc (snd (refreshAll_rows rows known self)) = refreshCollectionFunc self
   \<and> connDataset (snd (refreshAll_rows rows known self)) = connDataset self"
  by (induction rows known self rule: refreshAll_rows.induct) (simp_all add: refreshCollection_frame)

lemma refreshAll_rows_calls:
  "\<exists>more. calls (snd (refreshAll_rows rows known self)) = calls self @ more"
  by (induction rows known self rule: refreshAll_rows.induct) (auto simp: refreshCollection_frame)

lemma purge_frame:
  "db (purge known ks self) = db self
   \<and> refreshCollectionFunc (purge known ks self) = refreshCollectionFunc self
   \<and> connDataset (purge known ks self) = connDataset self
   \<and> calls (purge known ks self) = calls self"
  by (induction known ks self rule: purge.induct) simp_all

lemma purge_cache:
  "map_of (collectionCache (purge known ks self)) n =
     (if n \<in> set ks \<and> n \<notin> set known then None else map_of (collectionCache self) n)"
  by (induction known ks self rule: purge.induct)
     (auto simp: ContainsString_def delete_conv')

lemma purge_all_cached:
  "n \<notin> set known \<Longrightarrow>
   map_of (collectionCache (purge known (map fst (collectionCache self)) self)) n = None"
  by (simp add: purge_cache map_of_eq_None_iff)

lemma refreshAll_success:
  assumes "ListTables drv (listAllTablesQuery self) (db self) = Inr (rows, rowsErr)"
  shows "refreshAllCollections drv self =
     (rowsErr,
      purge (scannedNames rows)
        (map fst (collectionCache (snd (refreshAll_rows rows [] (called [CallListTables] self)))))
        (snd (refreshAll_rows rows [] (called [CallListTables] self))))"
proof -
  obtain known self1
    where r: "refreshAll_rows rows [] (called [CallListTables] self) = (known, self1)"
    by (cases "refreshAll_rows rows [] (called [CallListTables] self)")
  with refreshAll_rows_known [of rows "[]" "called [CallListTables] self"]
  have "known = scannedNames rows" by simp
  with r assms show ?thesis by (simp add: refreshAllCollections_def)
qed

lemma refreshAll_frame:
  "db (snd (refreshAllCollections drv self)) = db self
   \<and> refreshCollectionFunc (snd (refreshAllCollections drv self)) = refreshCollectionFunc self
   \<and> connDataset (snd (refreshAllCollections drv self)) = connDataset self"
proof (cases "ListTables drv (listAllTablesQuery self) (db self)")
  case (Inl e)
  then show ?thesis by (simp add: refreshAllCollections_def called_def)
next
  case (Inr p)
  obtain rows rowsErr where "p = (rows, rowsErr)" by (cases p)
  with Inr show ?thesis
    by (simp add: refreshAll_success purge_frame refreshAll_rows_frame called_def)
qed

lemma refreshAll_calls:
  "\<exists>more. calls (snd (refreshAllCollections drv self)) = calls self @ CallListTables # more"
proof (cases "ListTables drv (listAllTablesQuery self) (db self)")
  case (Inl e)
  then show ?thesis by (simp add: refreshAllCollections_def called_def)
next
  case (Inr p)
  obtain rows rowsErr where p: "p = (rows, rowsErr)" by (cases p)
  from refreshAll_rows_calls [of rows "[]" "called [CallListTables] self"]
  obtain more where "calls (snd (refreshAll_rows rows [] (called [CallListTables] self))) =
      calls (called [CallListTables] self) @ more" by blast
  with Inr p show ?thesis
    by (simp add: refreshAll_success purge_frame called_def)
qed

text \<open>An error of the introspection function is what \<^verbatim>\<open>GetCollection\<close> returns.\<close>

lemma GetCollection_introspection_error:
  "refreshCollectionFunc self (db self) (TrimPrefix (connDataset self) ''/'') name = Inl err \<Longrightarrow>
   fst (GetCollection self name) = Inl err"
  by (simp add: GetCollection_def refreshCollection_def)

text \<open>
  C8. A table dropped outside the backend is one that the list-all-tables query no longer
  reports and whose introspection finds no field. After a \<^verbatim>\<open>refreshAllCollections\<close> whose
  list query succeeds, no name outside the reported ones is cached, and \<^verbatim>\<open>GetCollection\<close> on
  the dropped name then fails with \<^verbatim>\<open>CollectionNotFound\<close>.
\<close>

theorem refreshAll_prunes_dropped:
  assumes listed: "ListTables drv (listAllTablesQuery self) (db self) = Inr (rows, rowsErr)"
    and dropped: "name \<notin> set (scannedNames rows)"
    and details: "refreshCollectionFunc self (db self) (TrimPrefix (connDataset self) ''/'') name =
                    Inr c"
    and nofields: "Fields c = []"
  shows "(\<forall>n. n \<notin> set (scannedNames rows) \<longrightarrow>
            map_of (collectionCache (snd (refreshAllCollections drv self))) n = None)
    \<and> fst (GetCollection (snd (refreshAllCollections drv self)) name) = Inl CollectionNotFound"
proof -
  let ?self' = "snd (refreshAllCollections drv self)"
  have pruned: "map_of (collectionCache ?self') n = None" if "n \<notin> set (scannedNames rows)" for n
    using that by (simp add: refreshAll_success [OF listed] purge_all_cached)
  have "refreshCollectionFunc ?self' (db ?self') (TrimPrefix (connDataset ?self') ''/'') name = Inr c"
    using details by (simp add: refreshAll_frame)
  then have "fst (GetCollection ?self' name) = Inl CollectionNotFound"
    using nofields pruned [OF dropped]
    by (simp add: GetCollection_def refreshCollection_def getCollectionFromCache_def called_def)
  with pruned show ?thesis by simp
qed

theorem refreshAll_prunes_witness:
  "map_of (collectionCache exStale) ''ghost'' \<noteq> None
   \<and> map fst (collectionCache (snd (refreshAllCollections exDriver exStale))) = [''users'']
   \<and> fst (GetCollection (snd (refreshAllCollections exDriver exStale)) ''ghost'') =
       Inl CollectionNotFound"
proof -
  have listed: "ListTables exDriver (listAllTablesQuery exStale) (db exStale) =
      Inr ([Inr ''users''], None)"
    by (simp add: exDriver_def exStale_def exBackend_def)
  have dropped: "''ghost'' \<notin> set (scannedNames [Inr ''users''])" by simp
  have details: "refreshCollectionFunc exStale (db exStale)
      (TrimPrefix (connDataset exStale) ''/'') ''ghost'' = Inr (NewCollection ''ghost'')"
    by (simp add: exStale_def exBackend_def exTableDetails_def NewCollection_def)
  have nofields: "Fields (NewCollection ''ghost'') = []" by (simp add: NewCollection_def)
  have keys: "map fst (collectionCache (snd (refreshAllCollections exDriver exStale))) = [''users'']"
    unfolding refreshAll_success [OF listed]
    by (simp add: refreshCollection_def called_def exStale_def
        exBackend_def exTableDetails_def NewCollection_def exUsers_def AddFields_def exField_def
        ContainsString_def AList.delete_eq)
  show ?thesis
    using refreshAll_prunes_dropped [OF listed dropped details nofields] keys
    by (simp add: exStale_def exBackend_def)
qed

section \<open>Properties of CreateCollection\<close>

text \<open>A column carries the modifiers its field declares, and no other.\<close>

lemma columnDef_modifiers:
  "columnDef cb gen field nativeType =
     ToFieldName cb gen (Field_Name field) @ '' '' @ nativeType @
     (if Required field then '' NOT NULL'' else []) @
     (if Unique field then '' UNIQUE'' else []) @
     (if DefaultValue field \<noteq> VNil then '' DEFAULT ?'' else [])"
  by (simp add: columnDef_def Let_def)

text \<open>
  When every declared field's type maps to a native type, the loop adds one column per
  field, in order, and collects the declared default values.
\<close>

lemma CreateCollection_fields_columns:
  "list_all2 (\<lambda>field nativeType.
       ToNativeType cb gen (Field_Type field) (Length field) = Inr nativeType) fs nts \<Longrightarrow>
   CreateCollection_fields cb gen fs acc vals =
     Inr (acc @ map2 (columnDef cb gen) fs nts,
          vals @ filter (\<lambda>v. v \<noteq> VNil) (map DefaultValue fs))"
  by (induction fs nts arbitrary: acc vals rule: list_all2_induct) simp_all

lemma ex_refresh_after_create:
  "calls (snd (refreshAllCollections exDriver
                 ((called evs exBackend)\<lparr>db := (db exBackend)\<lparr>applied := a\<rparr>\<rparr>))) =
     evs @ [CallListTables, CallTableDetails ''users'']"
proof -
  have listed: "ListTables exDriver
      (listAllTablesQuery ((called evs exBackend)\<lparr>db := (db exBackend)\<lparr>applied := a\<rparr>\<rparr>))
      (db ((called evs exBackend)\<lparr>db := (db exBackend)\<lparr>applied := a\<rparr>\<rparr>)) =
        Inr ([Inr ''users''], None)"
    by (simp add: exDriver_def exBackend_def called_def)
  show ?thesis
    unfolding refreshAll_success [OF listed]
    by (simp add: purge_frame refreshCollection_frame called_def exBackend_def)
qed

lemma ex_Sprintf_simps:
  "exSprintf ''%s'' arg = arg"
  "exSprintf ''%s INTEGER PRIMARY KEY ASC'' arg = arg @ '' INTEGER PRIMARY KEY ASC''"
  "exSprintf ''%s TEXT PRIMARY KEY'' arg = arg @ '' TEXT PRIMARY KEY''"
  "exSprintf ''DROP TABLE %s'' arg = ''DROP TABLE '' @ arg"
  by (simp_all add: exSprintf_def)

text \<open>
  What the instance does off the formats of one \<^verbatim>\<open>%s\<close>, as \<^verbatim>\<open>fmt.Sprintf\<close> does: an empty format
  leaves the argument over, a second verb finds none.
\<close>

lemma ex_Sprintf_off_format:
  "exSprintf [] ''id'' = ''%!(EXTRA string=id)''"
  "exSprintf ''%s %s'' ''id'' = ''id %!s(MISSING)''"
  "exSprintf ''100%% %v'' ''id'' = ''100% id''"
  by (simp_all add: exSprintf_def)

text \<open>
  C9 (as amended). A \<^verbatim>\<open>CreateCollection\<close> whose definition has no identity field name gives
  it the standard name before the DDL is rendered, and leaves the identity field type as
  declared. When every declared field's type maps to a native type and the transaction
  begins, the statement sent is \<^verbatim>\<open>CREATE TABLE\<close>, the table name, and in parentheses,
  separated by commas: the primary-key column, which is the backend's string primary-key
  format for a string identity type and its integer format for every other type, an unset
  one included, applied to the standard name; then one column per declared field, in
  order, each the field name, the native type, \<^verbatim>\<open>NOT NULL\<close> if and only if the field is
  required, \<^verbatim>\<open>UNIQUE\<close> if and only if it is unique, and \<^verbatim>\<open>DEFAULT ?\<close> if and only if it declares
  a default value. The arguments are the declared default values, in order. When the
  statement executes and the commit succeeds, the call returns no error and
  \<^verbatim>\<open>refreshAllCollections\<close> runs next.
\<close>

theorem CreateCollection_defaults_name_and_renders:
  fixes drv :: "'s Driver" and cb :: Collab and self :: "'s SqlBackend" and defn0 :: Collection
    and nts :: "string list"
  defines "gen \<equiv> makeQueryGen cb self (Some (defn0\<lparr>IdentityField := DefaultIdentityField\<rparr>))"
  defines "query \<equiv>
      ''CREATE TABLE '' @ ToTableName cb gen (Collection_Name defn0) @ '' ('' @
      Join (Sprintf cb (if IdentityFieldType defn0 = StringType
                        then createPrimaryKeyStrFormat self
                        else createPrimaryKeyIntFormat self)
              (ToFieldName cb gen DefaultIdentityField) #
            map2 (\<lambda>field nativeType.
                    ToFieldName cb gen (Field_Name field) @ '' '' @ nativeType @
                    (if Required field then '' NOT NULL'' else []) @
                    (if Unique field then '' UNIQUE'' else []) @
                    (if DefaultValue field \<noteq> VNil then '' DEFAULT ?'' else []))
              (Fields defn0) nts)
        '', '' @ '')''"
  defines "arguments \<equiv> filter (\<lambda>v. v \<noteq> VNil) (map DefaultValue (Fields defn0))"
  assumes unset: "IdentityField defn0 = []"
    and types: "list_all2 (\<lambda>field nativeType.
                   ToNativeType cb gen (Field_Type field) (Length field) = Inr nativeType)
                  (Fields defn0) nts"
    and begun: "Begin drv (db self) = None"
  shows "snd (snd (CreateCollection drv cb self defn0)) =
           defn0\<lparr>IdentityField := DefaultIdentityField\<rparr>
    \<and> (\<exists>more. calls (fst (snd (CreateCollection drv cb self defn0))) =
          calls self @ [CallBegin, CallExec query arguments] @ more)
    \<and> (\<forall>tx'. Exec drv query arguments (db self) = Inr tx' \<and> Commit drv tx' = None \<longrightarrow>
          CreateCollection drv cb self defn0 =
            (None,
             snd (refreshAllCollections drv
                    ((called [CallBegin, CallExec query arguments, CallCommit] self)
                       \<lparr>db := tx'\<rparr>)),
             defn0\<lparr>IdentityField := DefaultIdentityField\<rparr>)
          \<and> (\<exists>more. calls (fst (snd (CreateCollection drv cb self defn0))) =
                calls self @ [CallBegin, CallExec query arguments, CallCommit, CallListTables] @
                more))"
proof -
  let ?defn = "defn0\<lparr>IdentityField := DefaultIdentityField\<rparr>"
  let ?pk = "Sprintf cb (if IdentityFieldType defn0 = StringType
                        then createPrimaryKeyStrFormat self
                        else createPrimaryKeyIntFormat self)
              (ToFieldName cb gen DefaultIdentityField)"
  have key: "primaryKey cb self gen ?defn = [?pk]"
    by (simp add: primaryKey_def DefaultIdentityField_def split: Type.splits)
  have cols: "columnDef cb gen =
      (\<lambda>field nativeType.
         ToFieldName cb gen (Field_Name field) @ '' '' @ nativeType @
         (if Required field then '' NOT NULL'' else []) @
         (if Unique field then '' UNIQUE'' else []) @
         (if DefaultValue field \<noteq> VNil then '' DEFAULT ?'' else []))"
    by (intro ext) (rule columnDef_modifiers)
  have fs: "CreateCollection_fields cb gen (Fields ?defn) (primaryKey cb self gen ?defn) [] =
      Inr (?pk # map2 (columnDef cb gen) (Fields defn0) nts, arguments)"
    using CreateCollection_fields_columns [OF types, of "[?pk]" "[]"]
    by (simp add: key arguments_def)
  have q: "(''CREATE TABLE '' @ ToTableName cb gen (Collection_Name ?defn) @ '' ('') @
      Join (?pk # map2 (columnDef cb gen) (Fields defn0) nts) '', '' @ '')'' = query"
    unfolding query_def cols by simp
  have defn: "(if IdentityField defn0 = [] then ?defn else defn0) = ?defn"
    using unset by simp
  have unfold: "CreateCollection drv cb self defn0 =
      (case Exec drv query arguments (db self) of
         Inr tx' \<Rightarrow>
           (case Commit drv tx' of
              None \<Rightarrow>
                (None,
                 snd (refreshAllCollections drv
                        ((called [CallBegin, CallExec query arguments, CallCommit] self)
                           \<lparr>db := tx'\<rparr>)),
                 ?defn)
            | Some err \<Rightarrow>
                (Some err,
                 snd (refreshAllCollections drv
                        (called [CallBegin, CallExec query arguments, CallCommit] self)),
                 ?defn))
       | Inl err \<Rightarrow>
           (Some err, called [CallBegin, CallExec query arguments, CallRollback] self, ?defn))"
    unfolding CreateCollection_def Let_def defn gen_def [symmetric] fs
    by (simp only: sum.case prod.case q begun option.case)
  have refresh: "\<exists>more. calls (snd (refreshAllCollections drv
        ((called (evs @ [CallCommit]) self)\<lparr>db := d\<rparr>))) =
      calls self @ evs @ [CallCommit, CallListTables] @ more" for evs d
  proof -
    from refreshAll_calls [of drv "(called (evs @ [CallCommit]) self)\<lparr>db := d\<rparr>"]
    obtain more where "calls (snd (refreshAllCollections drv
        ((called (evs @ [CallCommit]) self)\<lparr>db := d\<rparr>))) =
      calls ((called (evs @ [CallCommit]) self)\<lparr>db := d\<rparr>) @ CallListTables # more"
      by blast
    then show ?thesis by (simp add: called_def)
  qed
  have r1: "snd (snd (CreateCollection drv cb self defn0)) = ?defn"
    unfolding unfold by (simp split: sum.splits option.splits)
  have r2: "\<exists>more. calls (fst (snd (CreateCollection drv cb self defn0))) =
      calls self @ [CallBegin, CallExec query arguments] @ more"
  proof (cases "Exec drv query arguments (db self)")
    case (Inl err)
    then show ?thesis unfolding unfold by (simp add: called_def)
  next
    case (Inr tx')
    from refresh [where evs = "[CallBegin, CallExec query arguments]" and d = tx']
      refresh [where evs = "[CallBegin, CallExec query arguments]" and d = "db self"]
    show ?thesis unfolding unfold using Inr
      by (cases "Commit drv tx'") (auto simp: called_def)
  qed
  have r3: "CreateCollection drv cb self defn0 =
            (None,
             snd (refreshAllCollections drv
                    ((called [CallBegin, CallExec query arguments, CallCommit] self)
                       \<lparr>db := tx'\<rparr>)),
             ?defn)
          \<and> (\<exists>more. calls (fst (snd (CreateCollection drv cb self defn0))) =
                calls self @ [CallBegin, CallExec query arguments, CallCommit, CallListTables] @
                more)"
    if "Exec drv query arguments (db self) = Inr tx' \<and> Commit drv tx' = None" for tx'
    using that refresh [where evs = "[CallBegin, CallExec query arguments]" and d = tx']
    unfolding unfold by simp
  from r1 r2 r3 show ?thesis by blast
qed

text \<open>
  A definition with no identity field name and no identity field type, a required field
  with a default value, a unique field and a plain one.
\<close>

theorem CreateCollection_witness:
  "fst (CreateCollection exDriver exCollab exBackend (exDefinition UnsetType)) = None
   \<and> IdentityField (snd (snd (CreateCollection exDriver exCollab exBackend (exDefinition UnsetType)))) =
       ''id''
   \<and> calls (fst (snd (CreateCollection exDriver exCollab exBackend (exDefinition UnsetType)))) =
       [CallBegin,
        CallExec ''CREATE TABLE t (id INTEGER PRIMARY KEY ASC, name TEXT NOT NULL DEFAULT ?, code TEXT UNIQUE, age INTEGER)''
          [VStr ''x''],
        CallCommit, CallListTables, CallTableDetails ''users'']"
proof -
  let ?gen = "makeQueryGen exCollab exBackend
                (Some ((exDefinition UnsetType)\<lparr>IdentityField := DefaultIdentityField\<rparr>))"
  let ?q = "''CREATE TABLE t (id INTEGER PRIMARY KEY ASC, name TEXT NOT NULL DEFAULT ?, code TEXT UNIQUE, age INTEGER)''"
  have unset: "IdentityField (exDefinition UnsetType) = []"
    by (simp add: exDefinition_def)
  have types: "list_all2 (\<lambda>field nativeType.
       ToNativeType exCollab ?gen (Field_Type field) (Length field) = Inr nativeType)
      (Fields (exDefinition UnsetType)) [''TEXT'', ''TEXT'', ''INTEGER'']"
    unfolding ex_gen by (simp add: exCollab_def exDefinition_def exField_def exNativeType_def)
  have query: "''CREATE TABLE '' @ ToTableName exCollab ?gen (Collection_Name (exDefinition UnsetType)) @
      '' ('' @
      Join (Sprintf exCollab (if IdentityFieldType (exDefinition UnsetType) = StringType
                        then createPrimaryKeyStrFormat exBackend
                        else createPrimaryKeyIntFormat exBackend)
              (ToFieldName exCollab ?gen DefaultIdentityField) #
            map2 (\<lambda>field nativeType.
                    ToFieldName exCollab ?gen (Field_Name field) @ '' '' @ nativeType @
                    (if Required field then '' NOT NULL'' else []) @
                    (if Unique field then '' UNIQUE'' else []) @
                    (if DefaultValue field \<noteq> VNil then '' DEFAULT ?'' else []))
              (Fields (exDefinition UnsetType)) [''TEXT'', ''TEXT'', ''INTEGER''])
        '', '' @ '')'' = ?q"
    unfolding ex_gen
    by (simp add: exCollab_def exDefinition_def exField_def exBackend_def ex_Sprintf_simps
        DefaultIdentityField_def)
  have vals: "filter (\<lambda>v. v \<noteq> VNil) (map DefaultValue (Fields (exDefinition UnsetType))) =
      [VStr ''x'']"
    by (simp add: exDefinition_def exField_def)
  have executed: "Exec exDriver ?q [VStr ''x''] (db exBackend) =
      Inr ((db exBackend)\<lparr>applied := [(?q, [VStr ''x''])]\<rparr>)"
    by (simp add: ex_driver_simps ex_backend_simps)
  note t = CreateCollection_defaults_name_and_renders
      [OF unset types ex_driver_simps(1), unfolded query vals]
  from t have "\<forall>tx'. Exec exDriver ?q [VStr ''x''] (db exBackend) = Inr tx' \<and>
        Commit exDriver tx' = None \<longrightarrow>
          CreateCollection exDriver exCollab exBackend (exDefinition UnsetType) =
            (None,
             snd (refreshAllCollections exDriver
                    ((called [CallBegin, CallExec ?q [VStr ''x''], CallCommit] exBackend)
                       \<lparr>db := tx'\<rparr>)),
             (exDefinition UnsetType)\<lparr>IdentityField := DefaultIdentityField\<rparr>)"
    by blast
  then have "CreateCollection exDriver exCollab exBackend (exDefinition UnsetType) =
            (None,
             snd (refreshAllCollections exDriver
                    ((called [CallBegin, CallExec ?q [VStr ''x''], CallCommit] exBackend)
                       \<lparr>db := (db exBackend)\<lparr>applied := [(?q, [VStr ''x''])]\<rparr>\<rparr>)),
             (exDefinition UnsetType)\<lparr>IdentityField := DefaultIdentityField\<rparr>)"
    using executed ex_driver_simps(2) by blast
  then show ?thesis
    by (simp add: ex_refresh_after_create DefaultIdentityField_def)
qed

text \<open>
  C9 as stated fails on the identity field type, which is never assigned: a definition with
  no identity field name and a string identity type is rendered with a string primary key
  named \<^verbatim>\<open>id\<close>, and a definition with neither name nor type still has no type after the
  call; the standard type is \<^verbatim>\<open>IntType\<close>.
\<close>

theorem CreateCollection_type_counterexample:
  "IdentityFieldType
     (snd (snd (CreateCollection exDriver exCollab exBackend (exDefinition StringType)))) = StringType
   \<and> IdentityFieldType
       (snd (snd (CreateCollection exDriver exCollab exBackend (exDefinition UnsetType)))) = UnsetType
   \<and> DefaultIdentityFieldType = IntType
   \<and> take 2 (calls (fst (snd (CreateCollection exDriver exCollab exBackend
                                 (exDefinition StringType))))) =
       [CallBegin,
        CallExec ''CREATE TABLE t (id TEXT PRIMARY KEY, name TEXT NOT NULL DEFAULT ?, code TEXT UNIQUE, age INTEGER)''
          [VStr ''x'']]"
  by (simp add: CreateCollection_def Let_def ex_gen primaryKey_def columnDef_modifiers
      exDefinition_def exField_def exCollab_def exNativeType_def ex_driver_simps
      DefaultIdentityField_def DefaultIdentityFieldType_def exBackend_def called_def
      refreshAllCollections_def exDriver_def refreshCollection_def exTableDetails_def
      NewCollection_def purge_frame makeQueryGen_def ex_Sprintf_simps split: prod.splits)

section \<open>Writes on a name that is not cached\<close>

text \<open>
  C10 (as amended). On a collection name absent from the schema cache, \<^verbatim>\<open>Insert\<close>, \<^verbatim>\<open>Delete\<close>
  and an \<^verbatim>\<open>Update\<close> whose target filter (if one is given) parses fail with
  \<^verbatim>\<open>CollectionNotFound\<close> and leave the backend as it was: no statement, no refresh, whatever
  the live store holds. An \<^verbatim>\<open>Update\<close> whose target filter does not parse returns the parse
  error instead, with the backend as it was. \<^verbatim>\<open>DeleteCollection\<close> fails and \<^verbatim>\<open>Exists\<close> gives
  false the same way.
  \<^verbatim>\<open>GetCollection\<close> introspects the name first and \<^verbatim>\<open>ListCollections\<close> lists the tables
  first.
\<close>

theorem writes_need_cached_collection:
  assumes absent: "map_of (collectionCache self) name = None"
  shows "Insert drv cb self name recordset = (Some CollectionNotFound, self)
    \<and> Delete drv cb self name ids = (Some CollectionNotFound, self)
    \<and> Update drv cb self name recordset [] = (Some CollectionNotFound, self)
    \<and> (\<forall>t ts f. Parse cb t = Inr f \<longrightarrow>
          Update drv cb self name recordset (t # ts) = (Some CollectionNotFound, self))
    \<and> (\<forall>t ts err. Parse cb t = Inl err \<longrightarrow>
          Update drv cb self name recordset (t # ts) = (Some err, self))
    \<and> DeleteCollection drv cb self name = (Some CollectionNotFound, self)
    \<and> Exists drv cb self name ident = (False, self)
    \<and> calls (snd (GetCollection self name)) = calls self @ [CallTableDetails name]
    \<and> (\<exists>more. calls (snd (ListCollections drv self)) = calls self @ CallListTables # more)"
proof -
  have miss: "getCollectionFromCache self name = Inl CollectionNotFound"
    using absent by (simp add: getCollectionFromCache_def)
  have get: "calls (snd (GetCollection self name)) = calls self @ [CallTableDetails name]"
    using refreshCollection_frame(4) [of self name]
    by (cases "refreshCollection self name")
       (auto simp: GetCollection_def split: option.splits sum.splits)
  have list: "\<exists>more. calls (snd (ListCollections drv self)) = calls self @ CallListTables # more"
    using refreshAll_calls [of drv self]
    by (cases "refreshAllCollections drv self") (auto simp: ListCollections_def split: option.splits)
  show ?thesis
    using miss get list
    by (simp add: Insert_def Delete_def Update_def Update_target_def DeleteCollection_def
        Exists_def)
qed

text \<open>The table \<^verbatim>\<open>ghost\<close> is in the live store and not in the cache.\<close>

theorem writes_need_cached_collection_witness:
  "map_of (tables (db exUncached)) ''ghost'' \<noteq> None
   \<and> Insert exDriver exCollab exUncached ''ghost'' exBatch = (Some CollectionNotFound, exUncached)
   \<and> Delete exDriver exCollab exUncached ''ghost'' [VInt 1] = (Some CollectionNotFound, exUncached)
   \<and> Update exDriver exCollab exUncached ''ghost'' exBatch [''name/a''] =
       (Some CollectionNotFound, exUncached)
   \<and> calls exUncached = []
   \<and> calls (snd (GetCollection exUncached ''ghost'')) = [CallTableDetails ''ghost'']"
proof -
  have absent: "map_of (collectionCache exUncached) ''ghost'' = None"
    by (simp add: exUncached_def exBackend_def)
  have parsed: "Parse exCollab ''name/a'' =
      Inr (zeroFilter\<lparr>Criteria := [\<lparr>Criterion_Field = ''name'', Values = [VStr ''a'']\<rparr>]\<rparr>)"
    by (simp add: exCollab_def exParse_def exFromMap_def)
  have c: "calls exUncached = []" "map_of (tables (db exUncached)) ''ghost'' \<noteq> None"
    by (simp_all add: exUncached_def exBackend_def)
  show ?thesis
    using writes_need_cached_collection [OF absent, of exDriver exCollab exBatch "[VInt 1]" VNil]
      parsed c
    by simp
qed

text \<open>
  C10 as stated fails for an \<^verbatim>\<open>Update\<close> with a target filter that does not parse: the
  filter is parsed before the cache is looked at, and the parse error is what comes back.
\<close>

theorem Update_unparsable_target_counterexample:
  "getCollectionFromCache exBackend ''ghost'' = Inl CollectionNotFound
   \<and> fst (Update exDriver exCollab exBackend ''ghost'' exBatch [''bad'']) =
       Some (External ''invalid filter spec'')"
  by (simp add: getCollectionFromCache_def exBackend_def Update_def Update_target_def exCollab_def
      exParse_def)

end
